theory Spec2Isabelle
  imports Main "HOL-Library.Word"
begin

unbundle bit_operations_syntax

section \<open>Registers and bit masks of the G233 SPI controller\<close>

text \<open>
  The definitions follow \<^verbatim>\<open>tests/gevico/tcg/riscv64/test-flash-read-interrupt.c\<close>
  (the interrupt-driven driver) and \<^verbatim>\<open>tests/gevico/tcg/riscv64/test-spi-cs.c\<close>
  (the dual chip-select driver). Registers are 32 bits wide, buffer elements are bytes,
  and the C \<^verbatim>\<open>int\<close> fields of the transfer state are integers: the cursors only
  move while they are below \<^verbatim>\<open>total_bytes\<close>, so they never overflow. The
  diagnostic \<^verbatim>\<open>interrupt_count\<close> is counted without a bound.
\<close>

type_synonym u8 = "8 word"
type_synonym u32 = "32 word"

datatype reg = CR1 | CR2 | SR | DR | CSCTRL

definition SPI_CR2_TXEIE :: u32 where "SPI_CR2_TXEIE = 0x80"   \<comment> \<open>\<^verbatim>\<open>1 << 7\<close>\<close>
definition SPI_CR2_RXNEIE :: u32 where "SPI_CR2_RXNEIE = 0x40" \<comment> \<open>\<^verbatim>\<open>1 << 6\<close>\<close>
definition SPI_CR2_ERRIE :: u32 where "SPI_CR2_ERRIE = 0x20"   \<comment> \<open>\<^verbatim>\<open>1 << 5\<close>\<close>

definition SPI_SR_RXNE :: u32 where "SPI_SR_RXNE = 0x01"       \<comment> \<open>\<^verbatim>\<open>1 << 0\<close>\<close>
definition SPI_SR_TXE :: u32 where "SPI_SR_TXE = 0x02"         \<comment> \<open>\<^verbatim>\<open>1 << 1\<close>\<close>
definition SPI_SR_UDR :: u32 where "SPI_SR_UDR = 0x08"         \<comment> \<open>\<^verbatim>\<open>1 << 3\<close>\<close>
definition SPI_SR_OVR :: u32 where "SPI_SR_OVR = 0x40"         \<comment> \<open>\<^verbatim>\<open>1 << 6\<close>\<close>

definition SPI_CSCTRL_CS0_EN :: u32 where "SPI_CSCTRL_CS0_EN = 0x01"
definition SPI_CSCTRL_CS1_EN :: u32 where "SPI_CSCTRL_CS1_EN = 0x02"
definition SPI_CSCTRL_CS0_ACT :: u32 where "SPI_CSCTRL_CS0_ACT = 0x10"
definition SPI_CSCTRL_CS1_ACT :: u32 where "SPI_CSCTRL_CS1_ACT = 0x20"

definition W25X16_READ_STATUS :: u8 where "W25X16_READ_STATUS = 0x05"
definition W25X16_WRITE_ENABLE :: u8 where "W25X16_WRITE_ENABLE = 0x06"
definition W25X16_PAGE_PROGRAM :: u8 where "W25X16_PAGE_PROGRAM = 0x02"
definition W25X16_SECTOR_ERASE :: u8 where "W25X16_SECTOR_ERASE = 0x20"
definition W25X16_READ_JEDEC_ID :: u8 where "W25X16_READ_JEDEC_ID = 0x9F"

section \<open>Observable effects\<close>

text \<open>
  Everything the driver does to the outside is recorded in order: reads and writes of the
  memory-mapped registers, and the lines printed by the \<^verbatim>\<open>LOG_ERR\<close>,
  \<^verbatim>\<open>LOG_WRN\<close> and \<^verbatim>\<open>LOG_INF\<close> macros. \<^verbatim>\<open>CURRENT_LOG_LEVEL\<close> is
  \<^verbatim>\<open>LOG_LEVEL_INF\<close>, so \<^verbatim>\<open>LOG_DBG\<close> prints nothing and has no constructor.
\<close>

datatype logmsg =
    ERR_irq int bool bool            \<comment> \<open>IRQ number, UDR, OVR\<close>
  | INF_starting int                 \<comment> \<open>Starting interrupt-driven SPI transfer (n bytes)\<close>
  | ERR_transfer_failed              \<comment> \<open>Transfer failed due to error\<close>
  | WRN_transfer_timeout int         \<comment> \<open>Transfer timeout after n iterations\<close>
  | INF_transfer_completed int       \<comment> \<open>Transfer completed successfully in n interrupts\<close>
  | ERR_read_status_failed           \<comment> \<open>Failed to read flash status\<close>
  | INF_reading_jedec                \<comment> \<open>Reading JEDEC ID...\<close>
  | INF_rx_data u8 u8 u8 u8          \<comment> \<open>RX data: four bytes\<close>
  | INF_jedec_id u32 u8 u32          \<comment> \<open>JEDEC ID, manufacturer, device\<close>
  | ERR_read_jedec_failed            \<comment> \<open>Failed to read JEDEC ID\<close>
  | WRN_busy_timeout int u8          \<comment> \<open>Flash busy timeout after n retries, status\<close>
  | INF_erasing u32                  \<comment> \<open>Erasing sector at address\<close>
  | INF_erase_completed              \<comment> \<open>Sector erase completed\<close>
  | INF_programming u32 int          \<comment> \<open>Programming page at address, length\<close>
  | INF_program_completed            \<comment> \<open>Page program completed\<close>
  | PRINTF_tx_timeout                \<comment> \<open>Warning: TX buffer empty timeout (\<^verbatim>\<open>test-spi-cs.c\<close>)\<close>
  | PRINTF_rx_timeout                \<comment> \<open>Warning: RX buffer not empty timeout (\<^verbatim>\<open>test-spi-cs.c\<close>)\<close>

datatype event = Rd reg | Wr reg u32 | Log logmsg

section \<open>The transfer state shared with the interrupt handler\<close>

text \<open>
  \<^verbatim>\<open>tx_buffer\<close> and \<^verbatim>\<open>rx_buffer\<close> are pointers in the source. The model keeps
  the memory they point to, as a map from the element offset to the byte stored there:
  \<^verbatim>\<open>rx_buffer[i] = b\<close> updates offset \<open>i\<close>, with no bounds check, as in C.
\<close>

record spi_transfer_state_t =
  tx_buffer :: "int \<Rightarrow> u8"
  rx_buffer :: "int \<Rightarrow> u8"
  tx_index :: int
  rx_index :: int
  total_bytes :: int
  transfer_complete :: int
  error_occurred :: int
  interrupt_count :: int

section \<open>The interrupt handler\<close>

text \<open>
  \<^verbatim>\<open>spi0_interrupt_handler\<close>. The controller itself is not part of these sources, so
  the values it returns are arguments: \<open>sr\<close> and \<open>cr2\<close> are what the two reads at entry
  return, \<open>dr\<close> is what a read of the data register returns, should the handler make one.
  The result is the new transfer state and the effects of this invocation, in order.
\<close>

definition spi0_interrupt_handler ::
  "u32 \<Rightarrow> u32 \<Rightarrow> u32 \<Rightarrow> spi_transfer_state_t \<Rightarrow> spi_transfer_state_t \<times> event list" where
  "spi0_interrupt_handler sr cr2 dr s0 =
    (let s1 = s0\<lparr>interrupt_count := interrupt_count s0 + 1\<rparr>;
         ev1 = [Rd SR, Rd CR2]
     in
     if cr2 AND SPI_CR2_ERRIE \<noteq> 0 \<and> sr AND (SPI_SR_UDR OR SPI_SR_OVR) \<noteq> 0 then
       (s1\<lparr>error_occurred := 1\<rparr>,
        ev1 @ [Log (ERR_irq (interrupt_count s1) (sr AND SPI_SR_UDR \<noteq> 0) (sr AND SPI_SR_OVR \<noteq> 0))])
     else
       let (s2, ev2) =
             (if cr2 AND SPI_CR2_RXNEIE \<noteq> 0 \<and> sr AND SPI_SR_RXNE \<noteq> 0 then
                (let received_byte = (ucast (dr AND 0xFF) :: u8)
                 in (if rx_index s1 < total_bytes s1 then
                       s1\<lparr>rx_buffer := (rx_buffer s1)(rx_index s1 := received_byte),
                          rx_index := rx_index s1 + 1\<rparr>
                     else s1,
                     ev1 @ [Rd DR]))
              else (s1, ev1))
       in
       if cr2 AND SPI_CR2_TXEIE \<noteq> 0 \<and> sr AND SPI_SR_TXE \<noteq> 0 then
         (if tx_index s2 < total_bytes s2 then
            (s2\<lparr>tx_index := tx_index s2 + 1\<rparr>,
             ev2 @ [Wr DR (ucast (tx_buffer s2 (tx_index s2)))])
          else if rx_index s2 < total_bytes s2 then
            (s2, ev2 @ [Wr DR 0x00])
          else
            (s2\<lparr>transfer_complete := 1\<rparr>,
             ev2 @ [Wr CR2 (cr2 AND NOT (SPI_CR2_TXEIE OR SPI_CR2_RXNEIE))]))
       else (s2, ev2))"

section \<open>Interrupt delivery\<close>

text \<open>
  One delivered interrupt is the triple of register values the handler meets:
  status register, control register 2 and data register. A burst is the list of
  interrupts delivered, in order, while the main line does not look.
\<close>

type_synonym snapshot = "u32 \<times> u32 \<times> u32"

fun run_irqs ::
  "snapshot list \<Rightarrow> spi_transfer_state_t \<times> event list \<Rightarrow> spi_transfer_state_t \<times> event list" where
  "run_irqs [] c = c"
| "run_irqs ((sr, cr2, dr) # rest) c =
     (let (s', ev) = spi0_interrupt_handler sr cr2 dr (fst c)
      in run_irqs rest (s', snd c @ ev))"

text \<open>
  The interrupts of one transfer. The main line reads the two volatile flags one after
  the other, so an interrupt can arrive between the two reads:
  \<^item> \<open>at_check k\<close> arrives before evaluation \<open>k\<close> of the loop condition starts (for
    \<open>k = 0\<close> after the write that enables the interrupts, for \<open>k > 0\<close> during pass
    \<open>k\<close> of the delay loop);
  \<^item> \<open>mid_check k\<close> arrives in evaluation \<open>k\<close>, after \<^verbatim>\<open>transfer_complete\<close> is
    read and before \<^verbatim>\<open>error_occurred\<close> is read;
  \<^item> \<open>at_exit\<close> arrives after the loop is left and before the write that disables
    the interrupts.
  No interrupt arrives while control register 2 is 0, that is, outside a transfer. The
  snapshots of a schedule are arbitrary: nothing is assumed about the controller.
\<close>

record irq_schedule =
  at_check :: "int \<Rightarrow> snapshot list"
  mid_check :: "int \<Rightarrow> snapshot list"
  at_exit :: "snapshot list"

definition quiet :: irq_schedule where
  "quiet = \<lparr>at_check = (\<lambda>_. []), mid_check = (\<lambda>_. []), at_exit = []\<rparr>"

definition max_timeout :: int where
  "max_timeout = 100000"

text \<open>
  The wait loop of \<^verbatim>\<open>g233_spi_transfer_interrupt\<close>:
  \<^verbatim>\<open>while (!transfer_complete && !error_occurred && timeout_count < max_timeout)\<close>.
  The inner delay loop has no effect but time. The result is the state when the loop is
  left, and \<^verbatim>\<open>timeout_count\<close>.
\<close>

function wait_loop ::
  "irq_schedule \<Rightarrow> int \<Rightarrow> spi_transfer_state_t \<times> event list
     \<Rightarrow> (spi_transfer_state_t \<times> event list) \<times> int" where
  "wait_loop sch timeout_count c =
     (let c1 = run_irqs (at_check sch timeout_count) c in
      if transfer_complete (fst c1) \<noteq> 0 then (c1, timeout_count)
      else
        let c2 = run_irqs (mid_check sch timeout_count) c1 in
        if error_occurred (fst c2) \<noteq> 0 then (c2, timeout_count)
        else if \<not> timeout_count < max_timeout then (c2, timeout_count)
        else wait_loop sch (timeout_count + 1) c2)"
  by pat_completeness auto
termination
  by (relation "measure (\<lambda>(sch, k, c). nat (max_timeout - k))") auto

declare wait_loop.simps [simp del]

section \<open>The driver and its world\<close>

text \<open>
  The state of the program and of its surroundings: the static \<^verbatim>\<open>spi_state\<close>, the
  effects so far, the interrupts of the transfers still to come (one schedule per call of
  the transfer function; when the list is used up no interrupt arrives any more), and the
  two static arrays of \<^verbatim>\<open>flash_page_program\<close>.
\<close>

record world =
  spi_state :: spi_transfer_state_t
  trace :: "event list"
  irqs :: "irq_schedule list"
  page_tx_data :: "int \<Rightarrow> u8"
  page_rx_data :: "int \<Rightarrow> u8"

definition emit :: "event list \<Rightarrow> world \<Rightarrow> world" where
  "emit ev w = w\<lparr>trace := trace w @ ev\<rparr>"

text \<open>A local array with an initialiser; offsets beyond it are never used by its owner.\<close>

definition array_of :: "u8 list \<Rightarrow> int \<Rightarrow> u8" where
  "array_of xs i = (if 0 \<le> i \<and> i < int (length xs) then xs ! nat i else 0)"

text \<open>\<^verbatim>\<open>g233_spi_cs_assert\<close> and \<^verbatim>\<open>g233_spi_cs_deassert\<close> of the interrupt-driven
  driver, which only knows line 0.\<close>

definition g233_spi_cs_assert_cs0 :: "world \<Rightarrow> world" where
  "g233_spi_cs_assert_cs0 w = emit [Wr CSCTRL (SPI_CSCTRL_CS0_EN OR SPI_CSCTRL_CS0_ACT)] w"

definition g233_spi_cs_deassert_cs0 :: "world \<Rightarrow> world" where
  "g233_spi_cs_deassert_cs0 w = emit [Wr CSCTRL 0] w"

text \<open>The assignments under \<^verbatim>\<open>/* Initialize transfer state */\<close>.\<close>

definition spi_state_init :: "(int \<Rightarrow> u8) \<Rightarrow> (int \<Rightarrow> u8) \<Rightarrow> int \<Rightarrow> spi_transfer_state_t" where
  "spi_state_init tx_data rx_data len =
     \<lparr>tx_buffer = tx_data, rx_buffer = rx_data, tx_index = 0, rx_index = 0,
      total_bytes = len, transfer_complete = 0, error_occurred = 0, interrupt_count = 0\<rparr>"

text \<open>
  \<^verbatim>\<open>g233_spi_transfer_interrupt\<close>: the result is the returned \<^verbatim>\<open>int\<close>, the
  memory behind \<^verbatim>\<open>rx_data\<close> afterwards, and the new world.
\<close>

definition g233_spi_transfer_interrupt ::
  "(int \<Rightarrow> u8) \<Rightarrow> (int \<Rightarrow> u8) \<Rightarrow> int \<Rightarrow> world \<Rightarrow> int \<times> (int \<Rightarrow> u8) \<times> world" where
  "g233_spi_transfer_interrupt tx_data rx_data len w =
    (let sch = (case irqs w of [] \<Rightarrow> quiet | s # _ \<Rightarrow> s);
         st0 = spi_state_init tx_data rx_data len;
         tr0 = trace w @ [Log (INF_starting len),
                          Wr CR2 (SPI_CR2_TXEIE OR SPI_CR2_RXNEIE OR SPI_CR2_ERRIE)];
         (c1, timeout_count) = wait_loop sch 0 (st0, tr0);
         c2 = run_irqs (at_exit sch) c1;
         st = fst c2;
         tr = snd c2 @ [Wr CR2 0];
         w' = w\<lparr>spi_state := st, irqs := tl (irqs w)\<rparr>
     in
     if error_occurred st \<noteq> 0 then
       (- 1, rx_buffer st, w'\<lparr>trace := tr @ [Log ERR_transfer_failed]\<rparr>)
     else if timeout_count \<ge> max_timeout then
       (- 2, rx_buffer st, w'\<lparr>trace := tr @ [Log (WRN_transfer_timeout max_timeout)]\<rparr>)
     else
       (0, rx_buffer st, w'\<lparr>trace := tr @ [Log (INF_transfer_completed (interrupt_count st))]\<rparr>))"

section \<open>The flash protocol layer of the interrupt-driven driver\<close>

text \<open>The settle delays (\<^verbatim>\<open>for (volatile int i = 0; i < 1000; i++);\<close>) only take time.\<close>

definition flash_read_status :: "world \<Rightarrow> u8 \<times> world" where
  "flash_read_status w =
    (let cmd = W25X16_READ_STATUS;
         status = 0xFF;
         tx_data = array_of [cmd, 0x00];
         rx_data = array_of [0, 0];
         w1 = g233_spi_cs_assert_cs0 w;
         (r, rx_data', w2) = g233_spi_transfer_interrupt tx_data rx_data 2 w1;
         (status', w3) = (if r = 0 then (rx_data' 1, w2)
                          else (status, emit [Log ERR_read_status_failed] w2))
     in (status', g233_spi_cs_deassert_cs0 w3))"

definition jedec_of :: "u8 \<Rightarrow> u8 \<Rightarrow> u8 \<Rightarrow> u32" where
  \<comment> \<open>\<^verbatim>\<open>(rx_data[1] << 16) | (rx_data[2] << 8) | rx_data[3]\<close>\<close>
  "jedec_of b1 b2 b3 = push_bit 16 (ucast b1) OR push_bit 8 (ucast b2) OR ucast b3"

definition flash_read_jedec_id :: "world \<Rightarrow> u32 \<times> world" where
  "flash_read_jedec_id w =
    (let cmd = W25X16_READ_JEDEC_ID;
         tx_data = array_of [cmd, 0x00, 0x00, 0x00];
         rx_data = array_of [0, 0, 0, 0];
         jedec_id = 0;
         w0 = emit [Log INF_reading_jedec] w;
         w1 = g233_spi_cs_assert_cs0 w0;
         (r, rx_data', w2) = g233_spi_transfer_interrupt tx_data rx_data 4 w1;
         (jedec_id', w3) =
           (if r = 0 then
              (let id = jedec_of (rx_data' 1) (rx_data' 2) (rx_data' 3)
               in (id, emit [Log (INF_rx_data (rx_data' 0) (rx_data' 1) (rx_data' 2) (rx_data' 3)),
                             Log (INF_jedec_id id (rx_data' 1)
                                    (push_bit 8 (ucast (rx_data' 2)) OR ucast (rx_data' 3)))] w2))
            else (jedec_id, emit [Log ERR_read_jedec_failed] w2))
     in (jedec_id', g233_spi_cs_deassert_cs0 w3))"

definition flash_write_enable :: "world \<Rightarrow> world" where
  "flash_write_enable w =
    (let cmd = W25X16_WRITE_ENABLE;
         tx_data = array_of [cmd];
         rx_data = array_of [0];
         w1 = g233_spi_cs_assert_cs0 w;
         (r, rx_data', w2) = g233_spi_transfer_interrupt tx_data rx_data 1 w1
     in g233_spi_cs_deassert_cs0 w2)"

text \<open>
  The \<^verbatim>\<open>do ... while (status & 0x01)\<close> loop of \<^verbatim>\<open>flash_wait_busy\<close>, entered with
  the current \<^verbatim>\<open>retry_count\<close>.
\<close>

function flash_wait_busy_loop :: "int \<Rightarrow> world \<Rightarrow> world" where
  "flash_wait_busy_loop retry_count w =
    (let r = flash_read_status w;
         status = fst r;
         retry_count' = retry_count + 1
     in if retry_count' > 10000 then
          emit [Log (WRN_busy_timeout retry_count' status)] (snd r)
        else if status AND 0x01 \<noteq> 0 then flash_wait_busy_loop retry_count' (snd r)
        else snd r)"
  by pat_completeness auto
termination
  by (relation "measure (\<lambda>(k, w). nat (10001 - k))") auto

declare flash_wait_busy_loop.simps [simp del]

definition flash_wait_busy :: "world \<Rightarrow> world" where
  "flash_wait_busy w = flash_wait_busy_loop 0 w"

definition addr_bytes :: "u32 \<Rightarrow> u8 list" where
  "addr_bytes addr =
     [ucast (drop_bit 16 addr AND 0xFF), ucast (drop_bit 8 addr AND 0xFF), ucast (addr AND 0xFF)]"

definition flash_sector_erase :: "u32 \<Rightarrow> world \<Rightarrow> world" where
  "flash_sector_erase addr w =
    (let w0 = emit [Log (INF_erasing addr)] w;
         tx_data = array_of (W25X16_SECTOR_ERASE # addr_bytes addr);
         rx_data = array_of [0, 0, 0, 0];
         w1 = flash_write_enable w0;
         w2 = g233_spi_cs_assert_cs0 w1;
         (r, rx_data', w3) = g233_spi_transfer_interrupt tx_data rx_data 4 w2;
         w4 = g233_spi_cs_deassert_cs0 w3;
         w5 = flash_wait_busy w4
     in emit [Log INF_erase_completed] w5)"

text \<open>The loop \<^verbatim>\<open>for (int i = 0; i < len; i++) tx_data[4 + i] = data[i];\<close>.\<close>

function copy_payload :: "(int \<Rightarrow> u8) \<Rightarrow> int \<Rightarrow> int \<Rightarrow> (int \<Rightarrow> u8) \<Rightarrow> (int \<Rightarrow> u8)" where
  "copy_payload data len i tx_data =
     (if i < len then copy_payload data len (i + 1) (tx_data(4 + i := data i)) else tx_data)"
  by pat_completeness auto
termination
  by (relation "measure (\<lambda>(d, len, i, t). nat (len - i))") auto

declare copy_payload.simps [simp del]

text \<open>
  \<^verbatim>\<open>flash_page_program\<close>. Its \<^verbatim>\<open>tx_data\<close> and \<^verbatim>\<open>rx_data\<close> are static arrays of
  260 bytes and keep their contents between calls; the caller keeps \<open>len\<close> within a page.
\<close>

definition flash_page_program :: "u32 \<Rightarrow> (int \<Rightarrow> u8) \<Rightarrow> int \<Rightarrow> world \<Rightarrow> world" where
  "flash_page_program addr data len w =
    (let w0 = emit [Log (INF_programming addr len)] w;
         tx0 = (page_tx_data w0)(0 := W25X16_PAGE_PROGRAM,
                                 1 := addr_bytes addr ! 0,
                                 2 := addr_bytes addr ! 1,
                                 3 := addr_bytes addr ! 2);
         tx_data = copy_payload data len 0 tx0;
         w1 = flash_write_enable (w0\<lparr>page_tx_data := tx_data\<rparr>);
         w2 = g233_spi_cs_assert_cs0 w1;
         (r, rx_data', w3) = g233_spi_transfer_interrupt tx_data (page_rx_data w2) (4 + len) w2;
         w4 = g233_spi_cs_deassert_cs0 (w3\<lparr>page_rx_data := rx_data'\<rparr>);
         w5 = flash_wait_busy w4
     in emit [Log INF_program_completed] w5)"

section \<open>The chip-select arbiter of the dual-flash driver\<close>

text \<open>
  \<^verbatim>\<open>g233_spi_cs_assert(int cs)\<close> and \<^verbatim>\<open>g233_spi_cs_deassert()\<close> of
  \<^verbatim>\<open>test-spi-cs.c\<close>. They act on the register file, where a write stores the value
  written, whatever the register held before.
\<close>

type_synonym regfile = "reg \<Rightarrow> u32"

definition FLASH_CS0 :: int where "FLASH_CS0 = 0"
definition FLASH_CS1 :: int where "FLASH_CS1 = 1"

definition g233_spi_cs_assert :: "int \<Rightarrow> regfile \<Rightarrow> regfile" where
  "g233_spi_cs_assert cs rf =
    (let ctrl = (if cs = FLASH_CS0 then SPI_CSCTRL_CS0_EN OR SPI_CSCTRL_CS0_ACT
                 else if cs = FLASH_CS1 then SPI_CSCTRL_CS1_EN OR SPI_CSCTRL_CS1_ACT
                 else 0)
     in rf(CSCTRL := ctrl))"

definition g233_spi_cs_deassert :: "regfile \<Rightarrow> regfile" where
  "g233_spi_cs_deassert rf = rf(CSCTRL := 0)"

text \<open>The lines whose enable bit (bit \<open>i\<close>) or active bit (bit \<open>4 + i\<close>) is set.\<close>

definition cs_enabled_lines :: "u32 \<Rightarrow> nat list" where
  "cs_enabled_lines v = filter (\<lambda>i. bit v i) [0, 1, 2, 3]"

definition cs_active_lines :: "u32 \<Rightarrow> nat list" where
  "cs_active_lines v = filter (\<lambda>i. bit v (4 + i)) [0, 1, 2, 3]"

section \<open>The polling transfer and the ID read of the dual-flash driver\<close>

text \<open>
  The world of \<^verbatim>\<open>test-spi-cs.c\<close>: the register file that keeps what is written to the
  control registers, the values the controller returns for the coming reads of the status
  register and of the data register (both arbitrary, with the number of reads made so
  far), and the accesses to these two registers and the lines printed, in order.
\<close>

record pworld =
  regs :: regfile
  sr_in :: "nat \<Rightarrow> u32"
  sr_n :: nat
  dr_in :: "nat \<Rightarrow> u32"
  dr_n :: nat
  ptrace :: "event list"

definition read_sr :: "pworld \<Rightarrow> u32 \<times> pworld" where
  "read_sr w = (sr_in w (sr_n w), w\<lparr>sr_n := Suc (sr_n w), ptrace := ptrace w @ [Rd SR]\<rparr>)"

definition read_dr :: "pworld \<Rightarrow> u32 \<times> pworld" where
  "read_dr w = (dr_in w (dr_n w), w\<lparr>dr_n := Suc (dr_n w), ptrace := ptrace w @ [Rd DR]\<rparr>)"

definition write_dr :: "u32 \<Rightarrow> pworld \<Rightarrow> pworld" where
  "write_dr v w = w\<lparr>ptrace := ptrace w @ [Wr DR v]\<rparr>"

text \<open>
  The two loops of \<^verbatim>\<open>g233_spi_transfer\<close>,
  \<^verbatim>\<open>do { sr = REG32(SPI_SR_OFFSET); retry_count++; if (retry_count > 1000) { printf(...); break; } } while (!(sr & flag));\<close>,
  entered with the current \<^verbatim>\<open>retry_count\<close>; they differ in the flag and the warning.
\<close>

function poll_flag :: "u32 \<Rightarrow> logmsg \<Rightarrow> int \<Rightarrow> pworld \<Rightarrow> pworld" where
  "poll_flag flag warning retry_count w =
     (let r = read_sr w;
          sr = fst r;
          retry_count' = retry_count + 1
      in if retry_count' > 1000 then (snd r)\<lparr>ptrace := ptrace (snd r) @ [Log warning]\<rparr>
         else if sr AND flag = 0 then poll_flag flag warning retry_count' (snd r)
         else snd r)"
  by pat_completeness auto
termination
  by (relation "measure (\<lambda>(f, m, k, w). nat (1001 - k))") auto

declare poll_flag.simps [simp del]

definition g233_spi_transfer :: "u8 \<Rightarrow> pworld \<Rightarrow> u8 \<times> pworld" where
  "g233_spi_transfer data w =
     (let w1 = poll_flag SPI_SR_TXE PRINTF_tx_timeout 0 w;
          w2 = write_dr (ucast data) w1;
          w3 = poll_flag SPI_SR_RXNE PRINTF_rx_timeout 0 w2;
          r = read_dr w3
      in (ucast (fst r AND 0xFF), snd r))"

definition W25X_READ_ID :: u8 where "W25X_READ_ID = 0x9F"

text \<open>
  \<^verbatim>\<open>flash_read_id\<close>. Its result is
  \<^verbatim>\<open>(g233_spi_transfer(0x00) << 16) | (g233_spi_transfer(0x00) << 8) | g233_spi_transfer(0x00)\<close>,
  and C does not fix the order in which the three operands of \<^verbatim>\<open>|\<close> are evaluated.
  The order is an argument: \<open>order\<close> lists the operands (0 for the leftmost, shifted by
  16, then 1 and 2) in the order in which their calls run; \<open>[0, 1, 2]\<close> is source order.
  An operand that \<open>order\<close> does not list counts as 0.
\<close>

definition operand :: "(nat \<times> u8) list \<Rightarrow> nat \<Rightarrow> u8" where
  "operand vals j = (case map_of vals j of Some b \<Rightarrow> b | None \<Rightarrow> 0)"

definition flash_read_id :: "nat list \<Rightarrow> int \<Rightarrow> pworld \<Rightarrow> u32 \<times> pworld" where
  "flash_read_id order cs w =
     (let cmd = W25X_READ_ID;
          w1 = w\<lparr>regs := g233_spi_cs_assert cs (regs w)\<rparr>;
          r0 = g233_spi_transfer cmd w1;
          r1 = g233_spi_transfer 0x00 (snd r0);
          r2 = g233_spi_transfer 0x00 (snd r1);
          r3 = g233_spi_transfer 0x00 (snd r2);
          vals = zip order [fst r1, fst r2, fst r3];
          id = push_bit 16 (ucast (operand vals 0)) OR push_bit 8 (ucast (operand vals 1))
                 OR ucast (operand vals 2);
          w6 = (snd r3)\<lparr>regs := g233_spi_cs_deassert (regs (snd r3))\<rparr>
      in (id, w6))"

section \<open>Properties and sample inputs\<close>

text \<open>The cursor invariant of the data model.\<close>

definition cursors_in_range :: "spi_transfer_state_t \<Rightarrow> bool" where
  "cursors_in_range s \<longleftrightarrow>
     0 \<le> tx_index s \<and> tx_index s \<le> total_bytes s \<and> 0 \<le> rx_index s \<and> rx_index s \<le> total_bytes s"

text \<open>A set completion flag means that neither cursor is below the transaction length.\<close>

definition complete_sound :: "spi_transfer_state_t \<Rightarrow> bool" where
  "complete_sound s \<longleftrightarrow>
     (transfer_complete s \<noteq> 0 \<longrightarrow> total_bytes s \<le> tx_index s \<and> total_bytes s \<le> rx_index s)"

text \<open>Projections of a list of effects: the values written to control register 2, the
  accesses to the data register, and the lengths of the transfers started.\<close>

definition cr2_writes :: "event list \<Rightarrow> u32 list" where
  "cr2_writes tr = concat (map (\<lambda>e. case e of Wr CR2 v \<Rightarrow> [v] | _ \<Rightarrow> []) tr)"

definition dr_accesses :: "event list \<Rightarrow> event list" where
  "dr_accesses tr = filter (\<lambda>e. case e of Rd DR \<Rightarrow> True | Wr DR v \<Rightarrow> True | _ \<Rightarrow> False) tr"

definition dr_writes :: "event list \<Rightarrow> u32 list" where
  "dr_writes tr = concat (map (\<lambda>e. case e of Wr DR v \<Rightarrow> [v] | _ \<Rightarrow> []) tr)"

definition starts :: "event list \<Rightarrow> int list" where
  "starts tr = concat (map (\<lambda>e. case e of Log (INF_starting n) \<Rightarrow> [n] | _ \<Rightarrow> []) tr)"

text \<open>A schedule with a single burst, delivered during pass \<open>n\<close> of the delay loop.\<close>

definition irq_burst_at :: "int \<Rightarrow> snapshot list \<Rightarrow> irq_schedule" where
  "irq_burst_at n b =
     \<lparr>at_check = (\<lambda>k. if k = n then b else []), mid_check = (\<lambda>_. []), at_exit = []\<rparr>"

text \<open>A world at program start, with the interrupts of the transfers to come.\<close>

definition world_of :: "irq_schedule list \<Rightarrow> world" where
  "world_of scheds =
     \<lparr>spi_state = spi_state_init (\<lambda>_. 0) (\<lambda>_. 0) 0, trace = [], irqs = scheds,
      page_tx_data = (\<lambda>_. 0), page_rx_data = (\<lambda>_. 0)\<rparr>"

text \<open>The context of a two-byte status read, fresh and with both cursors at the end.\<close>

definition ctx2 :: spi_transfer_state_t where
  "ctx2 = spi_state_init (array_of [0x05, 0x00]) (array_of [0, 0]) 2"

definition ctx2_done :: spi_transfer_state_t where
  "ctx2_done = ctx2\<lparr>tx_index := 2, rx_index := 2\<rparr>"

text \<open>What every state of one transfer of \<open>n\<close> bytes satisfies.\<close>

definition transfer_inv :: "int \<Rightarrow> spi_transfer_state_t \<Rightarrow> bool" where
  "transfer_inv n s \<longleftrightarrow>
     total_bytes s = n \<and> cursors_in_range s \<and> complete_sound s \<and> transfer_complete s \<in> {0, 1}"


text \<open>A one-byte context after the two interrupts that complete it, and the two-byte
  context after an overrun interrupt.\<close>

definition ctx1_complete :: spi_transfer_state_t where
  "ctx1_complete =
     fst (run_irqs [(0x02, 0xE0, 0), (0x03, 0xE0, 0x11)]
            (spi_state_init (array_of [0x06]) (array_of [0]) 1, []))"

definition ctx2_errored :: spi_transfer_state_t where
  "ctx2_errored = fst (spi0_interrupt_handler 0x40 0xE0 0 ctx2)"


text \<open>The interrupts of a status read that succeeds with status byte \<open>0x02\<close>.\<close>

definition sched_status :: irq_schedule where
  "sched_status = irq_burst_at 1 [(0x02, 0xE0, 0), (0x03, 0xE0, 0xFF), (0x03, 0xE0, 0x02)]"

text \<open>
  What the handler has written to the data register in a transfer of \<open>n\<close> bytes from
  \<open>tx\<close>, on top of the writes \<open>base\<close> made before: the bytes below the transmit cursor,
  in order, then zero dummy bytes, which only come once the cursor is at the end.
\<close>

definition tx_sent ::
  "(int \<Rightarrow> u8) \<Rightarrow> int \<Rightarrow> u32 list \<Rightarrow> spi_transfer_state_t \<times> event list \<Rightarrow> bool" where
  "tx_sent tx n base c \<longleftrightarrow>
     tx_buffer (fst c) = tx \<and> total_bytes (fst c) = n \<and>
     0 \<le> tx_index (fst c) \<and> tx_index (fst c) \<le> n \<and>
     (\<exists>k. dr_writes (snd c) =
            base @ map (\<lambda>i. ucast (tx (int i))) [0..<nat (tx_index (fst c))] @ replicate k 0 \<and>
          (0 < k \<longrightarrow> tx_index (fst c) = n))"

text \<open>No interrupt until the last pass of the delay loop; the two interrupts that complete a
  one-byte transfer arrive during pass 100000.\<close>

definition sched_late :: irq_schedule where
  "sched_late = irq_burst_at 100000 [(0x02, 0xE0, 0), (0x03, 0xE0, 0x5A)]"

text \<open>Further interrupt schedules: a single overrun interrupt; the two interrupts of a
  one-byte transfer; a four-byte transfer that receives \<open>0xFF, 0xEF, 0x30, 0x15\<close>.\<close>

definition sched_overrun :: irq_schedule where
  "sched_overrun = irq_burst_at 1 [(0x40, 0xE0, 0)]"

definition sched_byte :: irq_schedule where
  "sched_byte = irq_burst_at 1 [(0x02, 0xE0, 0), (0x03, 0xE0, 0xFF)]"

definition sched_jedec :: irq_schedule where
  "sched_jedec = irq_burst_at 1
     [(0x02, 0xE0, 0), (0x03, 0xE0, 0xFF), (0x03, 0xE0, 0xEF), (0x03, 0xE0, 0x30), (0x03, 0xE0, 0x15)]"

text \<open>
  Schedules for the ID read: five transmit-empty interrupts before the four bytes are
  received; the reply received and the transfer complete, then an overrun interrupt before
  the interrupts are disabled. And a world of the polling driver whose status register
  always shows both flags and whose data register returns \<open>0xFF, 0xEF, 0x30, 0x15\<close>.
\<close>

definition sched_jedec_extra :: irq_schedule where
  "sched_jedec_extra = irq_burst_at 1
     [(0x02, 0xE0, 0), (0x02, 0xE0, 0), (0x02, 0xE0, 0), (0x02, 0xE0, 0), (0x02, 0xE0, 0),
      (0x01, 0xE0, 0xFF), (0x01, 0xE0, 0xEF), (0x01, 0xE0, 0x30), (0x03, 0xE0, 0x15)]"

definition sched_jedec_then_error :: irq_schedule where
  "sched_jedec_then_error = sched_jedec\<lparr>at_exit := [(0x40, 0x20, 0)]\<rparr>"

definition stream_of :: "u32 list \<Rightarrow> nat \<Rightarrow> u32" where
  "stream_of xs i = (if i < length xs then xs ! i else 0)"

definition pworld_jedec :: pworld where
  "pworld_jedec =
     \<lparr>regs = (\<lambda>_. 0), sr_in = (\<lambda>_. 0x03), sr_n = 0,
      dr_in = stream_of [0xFF, 0xEF, 0x30, 0x15], dr_n = 0, ptrace = []\<rparr>"

text \<open>The low byte of the \<open>i\<close>-th value the data register returns from now on.\<close>

definition next_byte :: "pworld \<Rightarrow> nat \<Rightarrow> u8" where
  "next_byte w i = ucast (dr_in w (dr_n w + i) AND 0xFF)"

section \<open>Facts about the handler, the bursts and the wait loop\<close>

lemmas mask_defs = SPI_CR2_TXEIE_def SPI_CR2_RXNEIE_def SPI_CR2_ERRIE_def
  SPI_SR_RXNE_def SPI_SR_TXE_def SPI_SR_UDR_def SPI_SR_OVR_def

lemma handler_frame:
  "total_bytes (fst (spi0_interrupt_handler sr cr2 dr s)) = total_bytes s"
  "tx_buffer (fst (spi0_interrupt_handler sr cr2 dr s)) = tx_buffer s"
  by (simp_all add: spi0_interrupt_handler_def Let_def split: prod.splits)

lemma handler_error_kept:
  "error_occurred s \<noteq> 0 \<Longrightarrow> error_occurred (fst (spi0_interrupt_handler sr cr2 dr s)) \<noteq> 0"
  by (simp add: spi0_interrupt_handler_def Let_def split: prod.splits)

lemma handler_complete_kept:
  "transfer_complete s \<noteq> 0 \<Longrightarrow> transfer_complete (fst (spi0_interrupt_handler sr cr2 dr s)) \<noteq> 0"
  by (simp add: spi0_interrupt_handler_def Let_def split: prod.splits)

lemma handler_cursors_in_range:
  "cursors_in_range s \<Longrightarrow> cursors_in_range (fst (spi0_interrupt_handler sr cr2 dr s))"
  by (simp add: spi0_interrupt_handler_def cursors_in_range_def Let_def split: prod.splits)

lemma handler_complete_sound:
  "complete_sound s \<Longrightarrow> complete_sound (fst (spi0_interrupt_handler sr cr2 dr s))"
  by (auto simp add: spi0_interrupt_handler_def complete_sound_def Let_def split: prod.splits)

lemma handler_flags_01:
  "transfer_complete s \<in> {0, 1} \<Longrightarrow> transfer_complete (fst (spi0_interrupt_handler sr cr2 dr s)) \<in> {0, 1}"
  "error_occurred s \<in> {0, 1} \<Longrightarrow> error_occurred (fst (spi0_interrupt_handler sr cr2 dr s)) \<in> {0, 1}"
  by (simp_all add: spi0_interrupt_handler_def Let_def split: prod.splits)

lemma handler_cursors_when_complete:
  "transfer_complete s \<noteq> 0 \<Longrightarrow> complete_sound s \<Longrightarrow>
   tx_index (fst (spi0_interrupt_handler sr cr2 dr s)) = tx_index s \<and>
   rx_index (fst (spi0_interrupt_handler sr cr2 dr s)) = rx_index s"
  by (simp add: spi0_interrupt_handler_def complete_sound_def Let_def split: prod.splits)

lemma handler_starts: "starts (snd (spi0_interrupt_handler sr cr2 dr s)) = []"
  by (simp add: spi0_interrupt_handler_def starts_def Let_def split: prod.splits)


lemma run_irqs_preserves:
  assumes step: "\<And>sr cr2 dr s. P s \<Longrightarrow> P (fst (spi0_interrupt_handler sr cr2 dr s))"
  shows "P (fst c) \<Longrightarrow> P (fst (run_irqs b c))"
proof (induction b arbitrary: c)
  case Nil
  then show ?case by simp
next
  case (Cons a b)
  obtain sr cr2 dr where a: "a = (sr, cr2, dr)" by (cases a)
  obtain s' ev where h: "spi0_interrupt_handler sr cr2 dr (fst c) = (s', ev)" by fastforce
  from Cons.prems have "P (fst (spi0_interrupt_handler sr cr2 dr (fst c)))" by (rule step)
  then have "P (fst (s', snd c @ ev))" by (simp add: h)
  then have "P (fst (run_irqs b (s', snd c @ ev)))" by (rule Cons.IH)
  then show ?case by (simp add: a h)
qed

lemma run_irqs_trace: "\<exists>rest. snd (run_irqs b c) = snd c @ rest"
proof (induction b arbitrary: c)
  case Nil
  then show ?case by simp
next
  case (Cons a b)
  obtain sr cr2 dr where a: "a = (sr, cr2, dr)" by (cases a)
  obtain s' ev where h: "spi0_interrupt_handler sr cr2 dr (fst c) = (s', ev)" by fastforce
  from Cons.IH [of "(s', snd c @ ev)"] obtain rest
    where "snd (run_irqs b (s', snd c @ ev)) = snd c @ ev @ rest" by auto
  then show ?case by (simp add: a h)
qed

lemma starts_append: "starts (xs @ ys) = starts xs @ starts ys"
  by (simp add: starts_def)

lemma run_irqs_starts: "starts (snd (run_irqs b c)) = starts (snd c)"
proof (induction b arbitrary: c)
  case Nil
  then show ?case by simp
next
  case (Cons a b)
  obtain sr cr2 dr where a: "a = (sr, cr2, dr)" by (cases a)
  obtain s' ev where h: "spi0_interrupt_handler sr cr2 dr (fst c) = (s', ev)" by fastforce
  have "starts ev = []" using handler_starts [of sr cr2 dr "fst c"] by (simp add: h)
  then show ?case using Cons.IH [of "(s', snd c @ ev)"] by (simp add: a h starts_append)
qed

lemma wait_loop_preserves:
  assumes step: "\<And>sr cr2 dr s. P s \<Longrightarrow> P (fst (spi0_interrupt_handler sr cr2 dr s))"
  shows "P (fst c) \<Longrightarrow> P (fst (fst (wait_loop sch k c)))"
proof (induction sch k c rule: wait_loop.induct)
  case (1 sch k c)
  let ?c1 = "run_irqs (at_check sch k) c"
  let ?c2 = "run_irqs (mid_check sch k) ?c1"
  have p1: "P (fst ?c1)" using step "1.prems" by (rule run_irqs_preserves)
  have p2: "P (fst ?c2)" using step p1 by (rule run_irqs_preserves)
  show ?case
  proof (cases "transfer_complete (fst ?c1) \<noteq> 0 \<or> error_occurred (fst ?c2) \<noteq> 0 \<or> \<not> k < max_timeout")
    case True
    then show ?thesis using p1 p2 by (subst wait_loop.simps) (auto simp: Let_def)
  next
    case False
    then have "P (fst (fst (wait_loop sch (k + 1) ?c2)))"
      using "1.IH" [OF refl _ refl _ _ p2] by simp
    then show ?thesis using False by (subst wait_loop.simps) (simp add: Let_def)
  qed
qed

lemma wait_loop_trace: "\<exists>rest. snd (fst (wait_loop sch k c)) = snd c @ rest"
proof (induction sch k c rule: wait_loop.induct)
  case (1 sch k c)
  let ?c1 = "run_irqs (at_check sch k) c"
  let ?c2 = "run_irqs (mid_check sch k) ?c1"
  obtain r1 where r1: "snd ?c1 = snd c @ r1" using run_irqs_trace by blast
  obtain r2 where r2: "snd ?c2 = snd ?c1 @ r2" using run_irqs_trace by blast
  show ?case
  proof (cases "transfer_complete (fst ?c1) \<noteq> 0 \<or> error_occurred (fst ?c2) \<noteq> 0 \<or> \<not> k < max_timeout")
    case True
    then show ?thesis using r1 r2 by (subst wait_loop.simps) (auto simp: Let_def)
  next
    case False
    then obtain r3 where "snd (fst (wait_loop sch (k + 1) ?c2)) = snd ?c2 @ r3"
      using "1.IH" [OF refl _ refl] by auto
    then show ?thesis using False r1 r2 by (subst wait_loop.simps) (simp add: Let_def)
  qed
qed

lemma wait_loop_starts: "starts (snd (fst (wait_loop sch k c))) = starts (snd c)"
proof (induction sch k c rule: wait_loop.induct)
  case (1 sch k c)
  let ?c1 = "run_irqs (at_check sch k) c"
  let ?c2 = "run_irqs (mid_check sch k) ?c1"
  have r: "starts (snd ?c1) = starts (snd c)" "starts (snd ?c2) = starts (snd c)"
    by (simp_all add: run_irqs_starts)
  show ?case
  proof (cases "transfer_complete (fst ?c1) \<noteq> 0 \<or> error_occurred (fst ?c2) \<noteq> 0 \<or> \<not> k < max_timeout")
    case True
    then show ?thesis using r by (subst wait_loop.simps) (auto simp: Let_def)
  next
    case False
    then have "starts (snd (fst (wait_loop sch (k + 1) ?c2))) = starts (snd ?c2)"
      using "1.IH" [OF refl _ refl] by auto
    then show ?thesis using False r by (subst wait_loop.simps) (simp add: Let_def)
  qed
qed

text \<open>Why the loop was left.\<close>

lemma wait_loop_exit:
  "transfer_complete (fst (fst (wait_loop sch k c))) \<noteq> 0 \<or>
   error_occurred (fst (fst (wait_loop sch k c))) \<noteq> 0 \<or>
   max_timeout \<le> snd (wait_loop sch k c)"
proof (induction sch k c rule: wait_loop.induct)
  case (1 sch k c)
  let ?c1 = "run_irqs (at_check sch k) c"
  let ?c2 = "run_irqs (mid_check sch k) ?c1"
  show ?case
  proof (cases "transfer_complete (fst ?c1) \<noteq> 0 \<or> error_occurred (fst ?c2) \<noteq> 0 \<or> \<not> k < max_timeout")
    case True
    then show ?thesis by (subst (1 2 3) wait_loop.simps) (auto simp: Let_def)
  next
    case False
    then show ?thesis using "1.IH" [OF refl _ refl] by (subst (1 2 3) wait_loop.simps) (simp add: Let_def)
  qed
qed


text \<open>The transfer function in terms of its wait loop.\<close>

lemma transfer_unfold:
  assumes wl: "wait_loop (case irqs w of [] \<Rightarrow> quiet | s # _ \<Rightarrow> s) 0
                 (spi_state_init tx rx len,
                  trace w @ [Log (INF_starting len),
                             Wr CR2 (SPI_CR2_TXEIE OR SPI_CR2_RXNEIE OR SPI_CR2_ERRIE)]) = (c1, k)"
    and c2: "run_irqs (at_exit (case irqs w of [] \<Rightarrow> quiet | s # _ \<Rightarrow> s)) c1 = c2"
  shows "g233_spi_transfer_interrupt tx rx len w =
          (if error_occurred (fst c2) \<noteq> 0 then - 1 else if max_timeout \<le> k then - 2 else 0,
           rx_buffer (fst c2),
           w\<lparr>spi_state := fst c2, irqs := tl (irqs w),
             trace := snd c2 @ [Wr CR2 0,
               Log (if error_occurred (fst c2) \<noteq> 0 then ERR_transfer_failed
                    else if max_timeout \<le> k then WRN_transfer_timeout max_timeout
                    else INF_transfer_completed (interrupt_count (fst c2)))]\<rparr>)"
  using wl c2 by (simp add: g233_spi_transfer_interrupt_def Let_def)

lemma transfer_result:
  assumes "g233_spi_transfer_interrupt tx rx len w = (r, rxd, w')"
  shows "r \<in> {0, - 1, - 2}"
    and "r = - 1 \<longleftrightarrow> error_occurred (spi_state w') \<noteq> 0"
    and "r = 0 \<Longrightarrow> transfer_complete (spi_state w') \<noteq> 0"
    and "rxd = rx_buffer (spi_state w')"
    and "irqs w' = tl (irqs w)"
    and "page_tx_data w' = page_tx_data w" and "page_rx_data w' = page_rx_data w"
proof -
  let ?sch = "case irqs w of [] \<Rightarrow> quiet | s # _ \<Rightarrow> s"
  let ?c0 = "(spi_state_init tx rx len,
              trace w @ [Log (INF_starting len),
                         Wr CR2 (SPI_CR2_TXEIE OR SPI_CR2_RXNEIE OR SPI_CR2_ERRIE)])"
  obtain c1 k where wl: "wait_loop ?sch 0 ?c0 = (c1, k)" by fastforce
  define c2 where "c2 = run_irqs (at_exit ?sch) c1"
  note u = transfer_unfold [OF wl c2_def [symmetric]]
  from assms u have r: "r = (if error_occurred (fst c2) \<noteq> 0 then - 1 else if max_timeout \<le> k then - 2 else 0)"
    and st: "spi_state w' = fst c2" and rx: "rxd = rx_buffer (fst c2)"
    and rest: "irqs w' = tl (irqs w)" "page_tx_data w' = page_tx_data w" "page_rx_data w' = page_rx_data w"
    by auto
  show "r \<in> {0, - 1, - 2}" using r by simp
  show "r = - 1 \<longleftrightarrow> error_occurred (spi_state w') \<noteq> 0" using r st by simp
  show "rxd = rx_buffer (spi_state w')" using rx st by simp
  show "irqs w' = tl (irqs w)" "page_tx_data w' = page_tx_data w" "page_rx_data w' = page_rx_data w"
    using rest by simp_all
  show "transfer_complete (spi_state w') \<noteq> 0" if "r = 0"
  proof -
    from that r have e2: "error_occurred (fst c2) = 0" and k: "\<not> max_timeout \<le> k"
      by (auto split: if_splits)
    have "error_occurred (fst c1) = 0"
    proof (rule ccontr)
      assume "error_occurred (fst c1) \<noteq> 0"
      then have "error_occurred (fst (run_irqs (at_exit ?sch) c1)) \<noteq> 0"
        using run_irqs_preserves [of "\<lambda>s. error_occurred s \<noteq> 0", OF handler_error_kept] by blast
      then show False using e2 by (simp add: c2_def)
    qed
    with wait_loop_exit [of ?sch 0 ?c0] wl k have "transfer_complete (fst c1) \<noteq> 0" by simp
    then have "transfer_complete (fst (run_irqs (at_exit ?sch) c1)) \<noteq> 0"
      using run_irqs_preserves [of "\<lambda>s. transfer_complete s \<noteq> 0", OF handler_complete_kept] by blast
    then show ?thesis by (simp add: st c2_def)
  qed
qed

lemma transfer_preserves:
  assumes step: "\<And>sr cr2 dr s. P s \<Longrightarrow> P (fst (spi0_interrupt_handler sr cr2 dr s))"
    and init: "P (spi_state_init tx rx len)"
  shows "P (spi_state (snd (snd (g233_spi_transfer_interrupt tx rx len w))))"
proof -
  let ?sch = "case irqs w of [] \<Rightarrow> quiet | s # _ \<Rightarrow> s"
  let ?c0 = "(spi_state_init tx rx len,
              trace w @ [Log (INF_starting len),
                         Wr CR2 (SPI_CR2_TXEIE OR SPI_CR2_RXNEIE OR SPI_CR2_ERRIE)])"
  obtain c1 k where wl: "wait_loop ?sch 0 ?c0 = (c1, k)" by fastforce
  have "P (fst ?c0)" by (simp add: init)
  with step have "P (fst (fst (wait_loop ?sch 0 ?c0)))"
    by (rule wait_loop_preserves)
  then have "P (fst c1)" by (simp add: wl)
  with step have "P (fst (run_irqs (at_exit ?sch) c1))" by (rule run_irqs_preserves)
  then show ?thesis by (simp add: transfer_unfold [OF wl refl])
qed

lemma transfer_trace:
  "\<exists>mid out. trace (snd (snd (g233_spi_transfer_interrupt tx rx len w))) =
     trace w @ [Log (INF_starting len), Wr CR2 (SPI_CR2_TXEIE OR SPI_CR2_RXNEIE OR SPI_CR2_ERRIE)]
       @ mid @ [Wr CR2 0, Log out]"
proof -
  let ?sch = "case irqs w of [] \<Rightarrow> quiet | s # _ \<Rightarrow> s"
  let ?c0 = "(spi_state_init tx rx len,
              trace w @ [Log (INF_starting len),
                         Wr CR2 (SPI_CR2_TXEIE OR SPI_CR2_RXNEIE OR SPI_CR2_ERRIE)])"
  obtain c1 k where wl: "wait_loop ?sch 0 ?c0 = (c1, k)" by fastforce
  obtain r1 where r1: "snd c1 = snd ?c0 @ r1" using wait_loop_trace [of ?sch 0 ?c0] by (auto simp: wl)
  obtain r2 where r2: "snd (run_irqs (at_exit ?sch) c1) = snd c1 @ r2" using run_irqs_trace by blast
  show ?thesis by (simp add: transfer_unfold [OF wl refl] r1 r2)
qed

lemma transfer_starts:
  "starts (trace (snd (snd (g233_spi_transfer_interrupt tx rx len w)))) = starts (trace w) @ [len]"
proof -
  let ?sch = "case irqs w of [] \<Rightarrow> quiet | s # _ \<Rightarrow> s"
  let ?c0 = "(spi_state_init tx rx len,
              trace w @ [Log (INF_starting len),
                         Wr CR2 (SPI_CR2_TXEIE OR SPI_CR2_RXNEIE OR SPI_CR2_ERRIE)])"
  obtain c1 k where wl: "wait_loop ?sch 0 ?c0 = (c1, k)" by fastforce
  have "starts (snd c1) = starts (snd ?c0)" using wait_loop_starts [of ?sch 0 ?c0] by (simp add: wl)
  then have "starts (snd (run_irqs (at_exit ?sch) c1)) = starts (trace w) @ [len]"
    by (simp add: run_irqs_starts starts_append) (simp add: starts_def)
  then show ?thesis by (simp add: transfer_unfold [OF wl refl] starts_append) (simp add: starts_def)
qed

lemma and_not_bit: "bit ((x::u32) AND NOT m) n = (bit x n \<and> \<not> bit m n)"
  by (auto simp: bit_and_iff bit_not_iff dest: bit_imp_le_length)

lemma bit_C0: "bit (0xC0::u32) n = (n = 6 \<or> n = 7)"
proof -
  have e: "(0xC0::u32) = 2^6 OR 2^7" by simp
  show ?thesis unfolding e by (simp only: bit_or_iff bit_exp_iff possible_bit_word) auto
qed

lemma cr2_writes_append: "cr2_writes (xs @ ys) = cr2_writes xs @ cr2_writes ys"
  by (simp add: cr2_writes_def)

lemma handler_transfer_inv:
  "transfer_inv n s \<Longrightarrow> transfer_inv n (fst (spi0_interrupt_handler sr cr2 dr s))"
  unfolding transfer_inv_def
  using handler_frame(1) [of sr cr2 dr s] handler_cursors_in_range [of s sr cr2 dr]
    handler_complete_sound [of s sr cr2 dr] handler_flags_01(1) [of s sr cr2 dr]
  by simp


lemma run_irqs_complete_sound:
  "complete_sound (fst (run_irqs b (spi_state_init tx rx len, tr)))"
proof -
  have "complete_sound (fst (spi_state_init tx rx len, tr))"
    by (simp add: complete_sound_def spi_state_init_def)
  then show ?thesis using run_irqs_preserves [of complete_sound, OF handler_complete_sound] by blast
qed

text \<open>Passes of the wait loop in which no interrupt arrives only count.\<close>

lemma wait_loop_idle:
  assumes "\<forall>j. k \<le> j \<and> j < k + int n \<longrightarrow> at_check sch j = [] \<and> mid_check sch j = []"
    and "transfer_complete (fst c) = 0" and "error_occurred (fst c) = 0"
    and "k + int n \<le> max_timeout"
  shows "wait_loop sch k c = wait_loop sch (k + int n) c"
  using assms
proof (induction n arbitrary: k)
  case 0
  then show ?case by simp
next
  case (Suc n)
  have here: "at_check sch k = []" "mid_check sch k = []" using Suc.prems(1) by auto
  have lt: "k < max_timeout" using Suc.prems(4) by simp
  have step: "wait_loop sch k c = wait_loop sch (k + 1) c"
    using here lt Suc.prems(2,3) by (subst wait_loop.simps) (simp add: Let_def)
  have "wait_loop sch (k + 1) c = wait_loop sch (k + 1 + int n) c"
    using Suc.prems by (intro Suc.IH) auto
  moreover have "k + 1 + int n = k + int (Suc n)" by simp
  ultimately show ?case using step by simp
qed

lemma late_wait:
  "wait_loop sched_late 0 c0 = wait_loop sched_late 100000 c0"
  if "transfer_complete (fst c0) = 0" "error_occurred (fst c0) = 0"
  using wait_loop_idle [of 0 100000 sched_late c0] that
  by (simp add: sched_late_def irq_burst_at_def max_timeout_def)

section \<open>Facts about the flash protocol layer\<close>

lemma emit_trace [simp]: "trace (emit ev w) = trace w @ ev"
  by (simp add: emit_def)

lemma cs_trace [simp]:
  "trace (g233_spi_cs_assert_cs0 w) = trace w @ [Wr CSCTRL 0x11]"
  "trace (g233_spi_cs_deassert_cs0 w) = trace w @ [Wr CSCTRL 0]"
  by (simp_all add: g233_spi_cs_assert_cs0_def g233_spi_cs_deassert_cs0_def
      SPI_CSCTRL_CS0_EN_def SPI_CSCTRL_CS0_ACT_def)

lemma transfer_trace':
  "\<exists>rest. trace (snd (snd (g233_spi_transfer_interrupt tx rx len w))) =
     trace w @ [Log (INF_starting len), Wr CR2 0xE0] @ rest"
proof -
  have m: "SPI_CR2_TXEIE OR SPI_CR2_RXNEIE OR SPI_CR2_ERRIE = 0xE0" by (simp add: mask_defs)
  obtain mid out where "trace (snd (snd (g233_spi_transfer_interrupt tx rx len w))) =
     trace w @ [Log (INF_starting len), Wr CR2 (SPI_CR2_TXEIE OR SPI_CR2_RXNEIE OR SPI_CR2_ERRIE)]
       @ mid @ [Wr CR2 0, Log out]"
    using transfer_trace by blast
  then show ?thesis unfolding m by simp
qed

text \<open>What a status read adds to the trace, whatever its transfer returns.\<close>

lemma read_status_trace:
  "\<exists>rest. trace (snd (flash_read_status w)) =
     trace w @ [Wr CSCTRL 0x11, Log (INF_starting 2), Wr CR2 0xE0] @ rest"
proof -
  let ?T = "g233_spi_transfer_interrupt (array_of [W25X16_READ_STATUS, 0]) (array_of [0, 0]) 2
              (g233_spi_cs_assert_cs0 w)"
  obtain r rxd w2 where t: "?T = (r, rxd, w2)" by (metis prod.collapse)
  obtain rest where "trace (snd (snd ?T)) =
      trace (g233_spi_cs_assert_cs0 w) @ [Log (INF_starting 2), Wr CR2 0xE0] @ rest"
    using transfer_trace' by blast
  then have "trace w2 = trace w @ [Wr CSCTRL 0x11, Log (INF_starting 2), Wr CR2 0xE0] @ rest"
    by (simp add: t)
  then show ?thesis by (simp add: flash_read_status_def Let_def t)
qed

lemma wait_busy_loop_grows:
  "\<exists>rest. trace (flash_wait_busy_loop k w) = trace w @ rest"
proof (induction k w rule: flash_wait_busy_loop.induct)
  case (1 k w)
  obtain r1 where r1: "trace (snd (flash_read_status w)) = trace w @ r1"
    using read_status_trace [of w] by auto
  show ?case
  proof (cases "k + 1 > 10000 \<or> fst (flash_read_status w) AND 0x01 = 0")
    case True
    then show ?thesis using r1 by (subst flash_wait_busy_loop.simps) (auto simp: Let_def)
  next
    case False
    then obtain r2 where "trace (flash_wait_busy_loop (k + 1) (snd (flash_read_status w))) =
        trace (snd (flash_read_status w)) @ r2"
      using "1.IH" [OF refl refl refl] by auto
    then show ?thesis using False r1 by (subst flash_wait_busy_loop.simps) (simp add: Let_def)
  qed
qed

lemma wait_busy_trace:
  "\<exists>rest. trace (flash_wait_busy w) =
     trace w @ [Wr CSCTRL 0x11, Log (INF_starting 2), Wr CR2 0xE0] @ rest"
proof -
  obtain r1 where r1: "trace (snd (flash_read_status w)) =
      trace w @ [Wr CSCTRL 0x11, Log (INF_starting 2), Wr CR2 0xE0] @ r1"
    using read_status_trace [of w] by auto
  show ?thesis
  proof (cases "(0::int) + 1 > 10000 \<or> fst (flash_read_status w) AND 0x01 = 0")
    case True
    then show ?thesis using r1
      unfolding flash_wait_busy_def by (subst flash_wait_busy_loop.simps) (auto simp: Let_def)
  next
    case False
    obtain r2 where "trace (flash_wait_busy_loop (0 + 1) (snd (flash_read_status w))) =
        trace (snd (flash_read_status w)) @ r2"
      using wait_busy_loop_grows by blast
    then show ?thesis using False r1
      unfolding flash_wait_busy_def by (subst flash_wait_busy_loop.simps) (simp add: Let_def)
  qed
qed

lemma transfer_trace_outcome:
  "\<exists>mid out. trace (snd (snd (g233_spi_transfer_interrupt tx rx len w))) =
     trace w @ [Log (INF_starting len), Wr CR2 0xE0] @ mid @ [Wr CR2 0, Log out] \<and>
     (out = ERR_transfer_failed \<or> out = WRN_transfer_timeout max_timeout \<or>
      (\<exists>n. out = INF_transfer_completed n))"
proof -
  let ?sch = "case irqs w of [] \<Rightarrow> quiet | s # _ \<Rightarrow> s"
  let ?c0 = "(spi_state_init tx rx len,
              trace w @ [Log (INF_starting len),
                         Wr CR2 (SPI_CR2_TXEIE OR SPI_CR2_RXNEIE OR SPI_CR2_ERRIE)])"
  have m: "SPI_CR2_TXEIE OR SPI_CR2_RXNEIE OR SPI_CR2_ERRIE = 0xE0" by (simp add: mask_defs)
  obtain c1 k where wl: "wait_loop ?sch 0 ?c0 = (c1, k)" by fastforce
  obtain r1 where r1: "snd c1 = snd ?c0 @ r1" using wait_loop_trace [of ?sch 0 ?c0] by (auto simp: wl)
  obtain r2 where r2: "snd (run_irqs (at_exit ?sch) c1) = snd c1 @ r2" using run_irqs_trace by blast
  show ?thesis by (simp add: transfer_unfold [OF wl refl] r1 r2 m)
qed

lemma starts_outcome:
  "out = ERR_transfer_failed \<or> out = WRN_transfer_timeout k \<or> (\<exists>n. out = INF_transfer_completed n)
   \<Longrightarrow> starts [Wr CR2 0, Log out] = []"
  by (auto simp: starts_def)

lemma write_enable_starts:
  "starts (trace (flash_write_enable w)) = starts (trace w) @ [1]"
proof -
  let ?T = "g233_spi_transfer_interrupt (array_of [W25X16_WRITE_ENABLE]) (array_of [0]) 1
              (g233_spi_cs_assert_cs0 w)"
  have "starts (trace (snd (snd ?T))) = starts (trace (g233_spi_cs_assert_cs0 w)) @ [1]"
    by (rule transfer_starts)
  then show ?thesis
    by (simp add: flash_write_enable_def Let_def split: prod.splits)
       (auto simp: starts_append starts_def)
qed

text \<open>After the command transfer of an erase or program operation: whatever the transfer
  reported, chip select is released and the busy wait reads the status.\<close>

lemma command_then_wait_busy:
  assumes st: "starts (trace w2) = old @ [n]"
    and upd: "\<And>w. trace (upd w) = trace w"
  shows "\<exists>pre out rest.
     trace (emit [Log fin] (flash_wait_busy (g233_spi_cs_deassert_cs0
              (upd (snd (snd (g233_spi_transfer_interrupt tx rx len w2))))))) =
       pre @ [Wr CR2 0, Log out, Wr CSCTRL 0, Wr CSCTRL 0x11, Log (INF_starting 2), Wr CR2 0xE0]
         @ rest @ [Log fin] \<and>
     starts pre = old @ [n, len] \<and>
     (out = ERR_transfer_failed \<or> out = WRN_transfer_timeout max_timeout \<or>
      (\<exists>n. out = INF_transfer_completed n))"
proof -
  let ?w3 = "snd (snd (g233_spi_transfer_interrupt tx rx len w2))"
  obtain mid out where t: "trace ?w3 =
      trace w2 @ [Log (INF_starting len), Wr CR2 0xE0] @ mid @ [Wr CR2 0, Log out]"
    and out: "out = ERR_transfer_failed \<or> out = WRN_transfer_timeout max_timeout \<or>
      (\<exists>n. out = INF_transfer_completed n)"
    using transfer_trace_outcome by blast
  let ?pre = "trace w2 @ [Log (INF_starting len), Wr CR2 0xE0] @ mid"
  have "starts (trace ?w3) = starts (trace w2) @ [len]" by (rule transfer_starts)
  then have "starts (?pre @ [Wr CR2 0, Log out]) = old @ [n, len]" by (simp add: t st)
  then have sp: "starts ?pre = old @ [n, len]"
    using starts_outcome [OF out] by (simp only: starts_append [of ?pre] append_Nil2)
  obtain rest where "trace (flash_wait_busy (g233_spi_cs_deassert_cs0 (upd ?w3))) =
      trace (g233_spi_cs_deassert_cs0 (upd ?w3)) @ [Wr CSCTRL 0x11, Log (INF_starting 2), Wr CR2 0xE0] @ rest"
    using wait_busy_trace by blast
  then have "trace (emit [Log fin] (flash_wait_busy (g233_spi_cs_deassert_cs0 (upd ?w3)))) =
      ?pre @ [Wr CR2 0, Log out, Wr CSCTRL 0, Wr CSCTRL 0x11, Log (INF_starting 2), Wr CR2 0xE0]
         @ rest @ [Log fin]"
    by (simp add: t upd)
  with sp out show ?thesis by blast
qed

lemma emit_spi_state [simp]: "spi_state (emit ev w) = spi_state w"
  by (simp add: emit_def)

lemma cs_spi_state [simp]:
  "spi_state (g233_spi_cs_assert_cs0 w) = spi_state w"
  "spi_state (g233_spi_cs_deassert_cs0 w) = spi_state w"
  by (simp_all add: g233_spi_cs_assert_cs0_def g233_spi_cs_deassert_cs0_def)

lemma transfer_keeps_request:
  "tx_buffer (spi_state (snd (snd (g233_spi_transfer_interrupt tx rx len w)))) = tx \<and>
   total_bytes (spi_state (snd (snd (g233_spi_transfer_interrupt tx rx len w)))) = len"
proof -
  have "\<And>sr cr2 dr s. tx_buffer s = tx \<and> total_bytes s = len \<Longrightarrow>
      tx_buffer (fst (spi0_interrupt_handler sr cr2 dr s)) = tx \<and>
      total_bytes (fst (spi0_interrupt_handler sr cr2 dr s)) = len"
    by (simp add: handler_frame)
  moreover have "tx_buffer (spi_state_init tx rx len) = tx \<and> total_bytes (spi_state_init tx rx len) = len"
    by (simp add: spi_state_init_def)
  ultimately show ?thesis
    by (rule transfer_preserves [of "\<lambda>s. tx_buffer s = tx \<and> total_bytes s = len"])
qed

lemma jedec_EF3015: "jedec_of 0xEF 0x30 0x15 = 0xEF3015"
  by (simp add: jedec_of_def)

section \<open>Facts about the bytes written and the polling driver\<close>

lemma dr_writes_append: "dr_writes (xs @ ys) = dr_writes xs @ dr_writes ys"
  by (simp add: dr_writes_def)

text \<open>What one invocation writes to the data register.\<close>

lemma handler_dr_cases:
  "(dr_writes (snd (spi0_interrupt_handler sr cr2 dr s)) = [] \<and>
    tx_index (fst (spi0_interrupt_handler sr cr2 dr s)) = tx_index s) \<or>
   (tx_index s < total_bytes s \<and>
    dr_writes (snd (spi0_interrupt_handler sr cr2 dr s)) = [ucast (tx_buffer s (tx_index s))] \<and>
    tx_index (fst (spi0_interrupt_handler sr cr2 dr s)) = tx_index s + 1) \<or>
   (\<not> tx_index s < total_bytes s \<and>
    dr_writes (snd (spi0_interrupt_handler sr cr2 dr s)) = [0] \<and>
    tx_index (fst (spi0_interrupt_handler sr cr2 dr s)) = tx_index s)"
  by (simp add: spi0_interrupt_handler_def dr_writes_def Let_def)

lemma handler_tx_sent:
  assumes "tx_sent tx n base (s, tr)"
  shows "tx_sent tx n base (fst (spi0_interrupt_handler sr cr2 dr s),
                            tr @ snd (spi0_interrupt_handler sr cr2 dr s))"
proof -
  let ?H = "spi0_interrupt_handler sr cr2 dr s"
  from assms obtain k where
    b: "tx_buffer s = tx" "total_bytes s = n" "0 \<le> tx_index s" "tx_index s \<le> n"
    and w: "dr_writes tr = base @ map (\<lambda>i. ucast (tx (int i))) [0..<nat (tx_index s)] @ replicate k 0"
    and k: "0 < k \<longrightarrow> tx_index s = n"
    by (auto simp: tx_sent_def)
  have f: "tx_buffer (fst ?H) = tx" "total_bytes (fst ?H) = n"
    using b by (simp_all add: handler_frame)
  consider
    (none) "dr_writes (snd ?H) = []" "tx_index (fst ?H) = tx_index s"
    | (data) "tx_index s < total_bytes s" "dr_writes (snd ?H) = [ucast (tx_buffer s (tx_index s))]"
        "tx_index (fst ?H) = tx_index s + 1"
    | (dummy) "\<not> tx_index s < total_bytes s" "dr_writes (snd ?H) = [0]"
        "tx_index (fst ?H) = tx_index s"
    using handler_dr_cases [of sr cr2 dr s] by blast
  then show ?thesis
  proof cases
    case none
    with b f w k show ?thesis by (auto simp: tx_sent_def dr_writes_append)
  next
    case data
    then have k0: "k = 0" using k b by auto
    have n1: "nat (tx_index s + 1) = Suc (nat (tx_index s))" using b by simp
    have i: "int (nat (tx_index s)) = tx_index s" using b by simp
    have "dr_writes (tr @ snd ?H) =
        base @ map (\<lambda>i. ucast (tx (int i))) [0..<nat (tx_index s + 1)] @ replicate 0 0"
      using w k0 data b by (simp add: dr_writes_append n1 i)
    then show ?thesis using data b f by (auto simp: tx_sent_def)
  next
    case dummy
    then have e: "tx_index s = n" using b by simp
    have "dr_writes (tr @ snd ?H) =
        base @ map (\<lambda>i. ucast (tx (int i))) [0..<nat (tx_index s)] @ replicate (Suc k) 0"
      using w dummy by (simp add: dr_writes_append replicate_append_same)
    then show ?thesis using dummy b f e unfolding tx_sent_def by (metis fst_conv snd_conv)
  qed
qed

lemma run_irqs_tx_sent: "tx_sent tx n base c \<Longrightarrow> tx_sent tx n base (run_irqs b c)"
proof (induction b arbitrary: c)
  case Nil
  then show ?case by simp
next
  case (Cons a b)
  obtain sr cr2 dr where a: "a = (sr, cr2, dr)" by (cases a)
  obtain s' ev where h: "spi0_interrupt_handler sr cr2 dr (fst c) = (s', ev)" by fastforce
  have "tx_sent tx n base (fst c, snd c)" using Cons.prems by simp
  then have "tx_sent tx n base (s', snd c @ ev)"
    using handler_tx_sent [of tx n base "fst c" "snd c" sr cr2 dr] by (simp add: h)
  then have "tx_sent tx n base (run_irqs b (s', snd c @ ev))" by (rule Cons.IH)
  then show ?case by (simp add: a h)
qed

lemma wait_loop_tx_sent: "tx_sent tx n base c \<Longrightarrow> tx_sent tx n base (fst (wait_loop sch k c))"
proof (induction sch k c rule: wait_loop.induct)
  case (1 sch k c)
  let ?c1 = "run_irqs (at_check sch k) c"
  let ?c2 = "run_irqs (mid_check sch k) ?c1"
  have p1: "tx_sent tx n base ?c1" using "1.prems" by (rule run_irqs_tx_sent)
  have p2: "tx_sent tx n base ?c2" using p1 by (rule run_irqs_tx_sent)
  show ?case
  proof (cases "transfer_complete (fst ?c1) \<noteq> 0 \<or> error_occurred (fst ?c2) \<noteq> 0 \<or> \<not> k < max_timeout")
    case True
    then show ?thesis using p1 p2 by (subst wait_loop.simps) (auto simp: Let_def)
  next
    case False
    then have "tx_sent tx n base (fst (wait_loop sch (k + 1) ?c2))"
      using "1.IH" [OF refl _ refl _ _ p2] by simp
    then show ?thesis using False by (subst wait_loop.simps) (simp add: Let_def)
  qed
qed

text \<open>The data-register writes of a whole transfer.\<close>

lemma transfer_dr_writes:
  assumes "0 \<le> n"
  shows "\<exists>k. dr_writes (trace (snd (snd (g233_spi_transfer_interrupt tx rx n w)))) =
           dr_writes (trace w) @
           map (\<lambda>i. ucast (tx (int i)))
             [0..<nat (tx_index (spi_state (snd (snd (g233_spi_transfer_interrupt tx rx n w)))))]
           @ replicate k 0 \<and>
         (0 < k \<longrightarrow> tx_index (spi_state (snd (snd (g233_spi_transfer_interrupt tx rx n w)))) = n) \<and>
         0 \<le> tx_index (spi_state (snd (snd (g233_spi_transfer_interrupt tx rx n w)))) \<and>
         tx_index (spi_state (snd (snd (g233_spi_transfer_interrupt tx rx n w)))) \<le> n"
proof -
  let ?sch = "case irqs w of [] \<Rightarrow> quiet | s # _ \<Rightarrow> s"
  let ?c0 = "(spi_state_init tx rx n,
              trace w @ [Log (INF_starting n),
                         Wr CR2 (SPI_CR2_TXEIE OR SPI_CR2_RXNEIE OR SPI_CR2_ERRIE)])"
  obtain c1 k where wl: "wait_loop ?sch 0 ?c0 = (c1, k)" by fastforce
  have "dr_writes (snd ?c0) = dr_writes (trace w) @ map (\<lambda>i. ucast (tx (int i))) [0..<nat 0] @ replicate 0 0"
    by (simp add: dr_writes_append) (simp add: dr_writes_def)
  then have "tx_sent tx n (dr_writes (trace w)) ?c0"
    using assms unfolding tx_sent_def spi_state_init_def by (intro conjI exI [of _ 0]) simp_all
  then have "tx_sent tx n (dr_writes (trace w)) (fst (wait_loop ?sch 0 ?c0))"
    by (rule wait_loop_tx_sent)
  then have "tx_sent tx n (dr_writes (trace w)) c1" by (simp add: wl)
  then have "tx_sent tx n (dr_writes (trace w)) (run_irqs (at_exit ?sch) c1)"
    by (rule run_irqs_tx_sent)
  then show ?thesis
    unfolding tx_sent_def
    by (simp add: transfer_unfold [OF wl refl] dr_writes_append) (simp add: dr_writes_def)
qed

lemma transfer_success_cursor:
  assumes n: "0 \<le> n" and t: "g233_spi_transfer_interrupt tx rx n w = (0, rxd, w')"
  shows "tx_index (spi_state w') = n"
proof -
  have "transfer_inv n (spi_state_init tx rx n)"
    using n by (simp add: transfer_inv_def spi_state_init_def cursors_in_range_def complete_sound_def)
  then have "transfer_inv n (spi_state (snd (snd (g233_spi_transfer_interrupt tx rx n w))))"
    using transfer_preserves [of "transfer_inv n", OF handler_transfer_inv] by blast
  then have inv: "transfer_inv n (spi_state w')" by (simp add: t)
  have c: "transfer_complete (spi_state w') \<noteq> 0" using transfer_result(3) [OF t] by simp
  from inv c show ?thesis
    by (auto simp: transfer_inv_def cursors_in_range_def complete_sound_def)
qed

lemma dr_accesses_append: "dr_accesses (xs @ ys) = dr_accesses xs @ dr_accesses ys"
  by (simp add: dr_accesses_def)

lemma read_sr_keeps:
  "dr_in (snd (read_sr w)) = dr_in w" "dr_n (snd (read_sr w)) = dr_n w"
  "regs (snd (read_sr w)) = regs w"
  "dr_accesses (ptrace (snd (read_sr w))) = dr_accesses (ptrace w)"
  by (simp_all add: read_sr_def dr_accesses_def)

text \<open>Polling the status register leaves the data register alone.\<close>

lemma poll_flag_keeps:
  "dr_in (poll_flag flag m k w) = dr_in w \<and> dr_n (poll_flag flag m k w) = dr_n w \<and>
   regs (poll_flag flag m k w) = regs w \<and>
   dr_accesses (ptrace (poll_flag flag m k w)) = dr_accesses (ptrace w)"
proof (induction flag m k w rule: poll_flag.induct)
  case (1 flag m k w)
  show ?case
  proof (cases "k + 1 > 1000 \<or> fst (read_sr w) AND flag \<noteq> 0")
    case True
    then show ?thesis
      by (subst (1 2 3 4) poll_flag.simps)
         (auto simp: Let_def read_sr_keeps dr_accesses_append, simp_all add: dr_accesses_def)
  next
    case False
    then show ?thesis
      using "1.IH" [OF refl refl refl] 
      by (subst (1 2 3 4) poll_flag.simps) (simp add: Let_def read_sr_keeps)
  qed
qed

text \<open>One polling transfer: it writes its byte, then returns the low byte of the next
  value of the data register.\<close>

lemma polling_transfer:
  "fst (g233_spi_transfer d w) = next_byte w 0"
  "dr_in (snd (g233_spi_transfer d w)) = dr_in w"
  "dr_n (snd (g233_spi_transfer d w)) = Suc (dr_n w)"
  "regs (snd (g233_spi_transfer d w)) = regs w"
  "dr_accesses (ptrace (snd (g233_spi_transfer d w))) =
     dr_accesses (ptrace w) @ [Wr DR (ucast d), Rd DR]"
proof -
  let ?w1 = "poll_flag SPI_SR_TXE PRINTF_tx_timeout 0 w"
  let ?w2 = "write_dr (ucast d) ?w1"
  let ?w3 = "poll_flag SPI_SR_RXNE PRINTF_rx_timeout 0 ?w2"
  note k1 = poll_flag_keeps [of SPI_SR_TXE PRINTF_tx_timeout 0 w]
  note k3 = poll_flag_keeps [of SPI_SR_RXNE PRINTF_rx_timeout 0 ?w2]
  have w2: "dr_in ?w2 = dr_in w" "dr_n ?w2 = dr_n w" "regs ?w2 = regs w"
    "dr_accesses (ptrace ?w2) = dr_accesses (ptrace w) @ [Wr DR (ucast d)]"
    using k1 by (simp_all add: write_dr_def dr_accesses_append) (simp add: dr_accesses_def)
  show "fst (g233_spi_transfer d w) = next_byte w 0"
    using k3 w2 by (simp add: g233_spi_transfer_def Let_def read_dr_def next_byte_def)
  show "dr_in (snd (g233_spi_transfer d w)) = dr_in w"
    using k3 w2 by (simp add: g233_spi_transfer_def Let_def read_dr_def)
  show "dr_n (snd (g233_spi_transfer d w)) = Suc (dr_n w)"
    using k3 w2 by (simp add: g233_spi_transfer_def Let_def read_dr_def)
  show "regs (snd (g233_spi_transfer d w)) = regs w"
    using k3 w2 by (simp add: g233_spi_transfer_def Let_def read_dr_def)
  show "dr_accesses (ptrace (snd (g233_spi_transfer d w))) =
     dr_accesses (ptrace w) @ [Wr DR (ucast d), Rd DR]"
    using k3 w2 by (simp add: g233_spi_transfer_def Let_def read_dr_def dr_accesses_append)
       (simp add: dr_accesses_def)
qed

lemma polling_transfer_next:
  "next_byte (snd (g233_spi_transfer d w)) i = next_byte w (Suc i)"
  by (simp add: next_byte_def polling_transfer)

lemma flash_read_id_accesses:
  "dr_accesses (ptrace (snd (flash_read_id order cs w))) =
     dr_accesses (ptrace w) @
       [Wr DR 0x9F, Rd DR, Wr DR 0, Rd DR, Wr DR 0, Rd DR, Wr DR 0, Rd DR]"
  by (simp add: flash_read_id_def Let_def polling_transfer W25X_READ_ID_def)

lemma flash_read_id_source_order:
  "fst (flash_read_id [0, 1, 2] cs w) =
     push_bit 16 (ucast (next_byte w 1)) OR push_bit 8 (ucast (next_byte w 2))
       OR ucast (next_byte w 3)"
proof -
  have n: "next_byte (w\<lparr>regs := r\<rparr>) i = next_byte w i" for r i
    by (simp add: next_byte_def)
  show ?thesis
    by (simp add: flash_read_id_def Let_def operand_def polling_transfer(1)
        polling_transfer_next n numeral_2_eq_2 numeral_3_eq_3)
qed

lemma jedec_tx_prefix:
  assumes "m \<le> 4"
  shows "map (\<lambda>i. (ucast (array_of [W25X16_READ_JEDEC_ID, 0x00, 0x00, 0x00] (int i)) :: u32)) [0..<m] =
         take m [0x9F, 0, 0, 0]"
proof -
  from assms consider "m = 0" | "m = 1" | "m = 2" | "m = 3" | "m = 4" by linarith
  then show ?thesis
    by cases (simp_all add: array_of_def W25X16_READ_JEDEC_ID_def upt_rec)
qed

section \<open>The claims\<close>

text \<open>
  C1. Whenever the handler is entered with error interrupts enabled (ERRIE in CR2) and the
  status snapshot shows overrun or underrun, it sets \<^verbatim>\<open>error_occurred\<close> and returns
  at once: both cursors, the receive buffer and the completion flag are as before, also
  when receive-not-empty is set in the same snapshot, and the invocation neither reads nor
  writes the data register.
\<close>

theorem handler_error_first:
  assumes "cr2 AND SPI_CR2_ERRIE \<noteq> 0" and "sr AND (SPI_SR_UDR OR SPI_SR_OVR) \<noteq> 0"
  shows "error_occurred (fst (spi0_interrupt_handler sr cr2 dr s)) = 1 \<and>
         tx_index (fst (spi0_interrupt_handler sr cr2 dr s)) = tx_index s \<and>
         rx_index (fst (spi0_interrupt_handler sr cr2 dr s)) = rx_index s \<and>
         rx_buffer (fst (spi0_interrupt_handler sr cr2 dr s)) = rx_buffer s \<and>
         transfer_complete (fst (spi0_interrupt_handler sr cr2 dr s)) = transfer_complete s \<and>
         dr_accesses (snd (spi0_interrupt_handler sr cr2 dr s)) = []"
  using assms by (simp add: spi0_interrupt_handler_def dr_accesses_def)

theorem handler_error_first_witness:
  "(0xE0 :: u32) AND SPI_CR2_ERRIE \<noteq> 0 \<and> (0x41 :: u32) AND SPI_SR_RXNE \<noteq> 0 \<and>
   (0x41 :: u32) AND (SPI_SR_UDR OR SPI_SR_OVR) \<noteq> 0 \<and>
   error_occurred (fst (spi0_interrupt_handler 0x41 0xE0 0xAB ctx2)) = 1 \<and>
   rx_index (fst (spi0_interrupt_handler 0x41 0xE0 0xAB ctx2)) = 0 \<and>
   tx_index (fst (spi0_interrupt_handler 0x41 0xE0 0xAB ctx2)) = 0 \<and>
   dr_accesses (snd (spi0_interrupt_handler 0x41 0xE0 0xAB ctx2)) = []"
  using handler_error_first [of "0xE0" "0x41" "0xAB" ctx2]
  by (simp add: mask_defs ctx2_def spi_state_init_def)

text \<open>
  C6. Whenever the handler is entered with receive-not-empty signalled and enabled and
  does not take the error path, it reads the data register exactly once; below
  \<^verbatim>\<open>total_bytes\<close> the low byte read is stored at \<^verbatim>\<open>rx_index\<close> and the cursor
  moves by one, otherwise the byte is dropped and the cursor stays (at
  \<^verbatim>\<open>total_bytes\<close>). Every invocation keeps both cursors between 0 and
  \<^verbatim>\<open>total_bytes\<close>.
\<close>

theorem handler_receive:
  "(\<not> (cr2 AND SPI_CR2_ERRIE \<noteq> 0 \<and> sr AND (SPI_SR_UDR OR SPI_SR_OVR) \<noteq> 0) \<and>
    cr2 AND SPI_CR2_RXNEIE \<noteq> 0 \<and> sr AND SPI_SR_RXNE \<noteq> 0 \<longrightarrow>
      length (filter (\<lambda>e. e = Rd DR) (snd (spi0_interrupt_handler sr cr2 dr s))) = 1 \<and>
      (rx_index s < total_bytes s \<longrightarrow>
         rx_buffer (fst (spi0_interrupt_handler sr cr2 dr s)) =
           (rx_buffer s)(rx_index s := ucast (dr AND 0xFF)) \<and>
         rx_index (fst (spi0_interrupt_handler sr cr2 dr s)) = rx_index s + 1) \<and>
      (\<not> rx_index s < total_bytes s \<longrightarrow>
         rx_buffer (fst (spi0_interrupt_handler sr cr2 dr s)) = rx_buffer s \<and>
         rx_index (fst (spi0_interrupt_handler sr cr2 dr s)) = rx_index s) \<and>
      (rx_index s = total_bytes s \<longrightarrow>
         rx_index (fst (spi0_interrupt_handler sr cr2 dr s)) = total_bytes s)) \<and>
   (cursors_in_range s \<longrightarrow> cursors_in_range (fst (spi0_interrupt_handler sr cr2 dr s)))"
proof -
  have "cursors_in_range s \<longrightarrow> cursors_in_range (fst (spi0_interrupt_handler sr cr2 dr s))"
    by (simp add: handler_cursors_in_range)
  moreover have "\<not> (cr2 AND SPI_CR2_ERRIE \<noteq> 0 \<and> sr AND (SPI_SR_UDR OR SPI_SR_OVR) \<noteq> 0) \<and>
    cr2 AND SPI_CR2_RXNEIE \<noteq> 0 \<and> sr AND SPI_SR_RXNE \<noteq> 0 \<longrightarrow>
      length (filter (\<lambda>e. e = Rd DR) (snd (spi0_interrupt_handler sr cr2 dr s))) = 1 \<and>
      (rx_index s < total_bytes s \<longrightarrow>
         rx_buffer (fst (spi0_interrupt_handler sr cr2 dr s)) =
           (rx_buffer s)(rx_index s := ucast (dr AND 0xFF)) \<and>
         rx_index (fst (spi0_interrupt_handler sr cr2 dr s)) = rx_index s + 1) \<and>
      (\<not> rx_index s < total_bytes s \<longrightarrow>
         rx_buffer (fst (spi0_interrupt_handler sr cr2 dr s)) = rx_buffer s \<and>
         rx_index (fst (spi0_interrupt_handler sr cr2 dr s)) = rx_index s) \<and>
      (rx_index s = total_bytes s \<longrightarrow>
         rx_index (fst (spi0_interrupt_handler sr cr2 dr s)) = total_bytes s)"
    by (auto simp add: spi0_interrupt_handler_def Let_def)
  ultimately show ?thesis by blast
qed


theorem handler_receive_witness:
  "cursors_in_range ctx2 \<and> rx_index ctx2 < total_bytes ctx2 \<and>
   (0xE0 :: u32) AND SPI_CR2_RXNEIE \<noteq> 0 \<and> (0x03 :: u32) AND SPI_SR_RXNE \<noteq> 0 \<and>
   length (filter (\<lambda>e. e = Rd DR) (snd (spi0_interrupt_handler 0x03 0xE0 0x1AB ctx2))) = 1 \<and>
   rx_buffer (fst (spi0_interrupt_handler 0x03 0xE0 0x1AB ctx2)) 0 = 0xAB \<and>
   rx_index (fst (spi0_interrupt_handler 0x03 0xE0 0x1AB ctx2)) = 1 \<and>
   cursors_in_range (fst (spi0_interrupt_handler 0x03 0xE0 0x1AB ctx2)) \<and>
   \<not> rx_index ctx2_done < total_bytes ctx2_done \<and>
   rx_index (fst (spi0_interrupt_handler 0x01 0xE0 0xCD ctx2_done)) = 2 \<and>
   rx_buffer (fst (spi0_interrupt_handler 0x01 0xE0 0xCD ctx2_done)) = rx_buffer ctx2_done"
  using handler_receive [of "0xE0" "0x03" "0x1AB" ctx2]
    handler_receive [of "0xE0" "0x01" "0xCD" ctx2_done]
  by (simp add: mask_defs ctx2_def ctx2_done_def spi_state_init_def cursors_in_range_def)

text \<open>
  C10. The handler writes control register 2 only on the invocation that marks the
  transfer complete, and the value written is the snapshot with the transmit-empty and
  receive-not-empty enable bits (bits 7 and 6) cleared: every other bit, the
  error-interrupt enable ERRIE among them, is written back as it was read. The last value
  the transfer function writes to the register is 0.
\<close>

theorem handler_completion_cr2_frame:
  "(transfer_complete s = 0 \<and> transfer_complete (fst (spi0_interrupt_handler sr cr2 dr s)) \<noteq> 0 \<longrightarrow>
      cr2_writes (snd (spi0_interrupt_handler sr cr2 dr s)) =
        [cr2 AND NOT (SPI_CR2_TXEIE OR SPI_CR2_RXNEIE)]) \<and>
   (cr2_writes (snd (spi0_interrupt_handler sr cr2 dr s)) = [] \<or>
    cr2_writes (snd (spi0_interrupt_handler sr cr2 dr s)) =
        [cr2 AND NOT (SPI_CR2_TXEIE OR SPI_CR2_RXNEIE)]) \<and>
   (\<forall>n. bit (cr2 AND NOT (SPI_CR2_TXEIE OR SPI_CR2_RXNEIE)) n = (bit cr2 n \<and> n \<noteq> 6 \<and> n \<noteq> 7)) \<and>
   (cr2 AND NOT (SPI_CR2_TXEIE OR SPI_CR2_RXNEIE)) AND SPI_CR2_ERRIE = cr2 AND SPI_CR2_ERRIE \<and>
   last (cr2_writes (trace (snd (snd (g233_spi_transfer_interrupt tx rx len w))))) = 0"
proof -
  have a: "transfer_complete s = 0 \<and> transfer_complete (fst (spi0_interrupt_handler sr cr2 dr s)) \<noteq> 0 \<longrightarrow>
      cr2_writes (snd (spi0_interrupt_handler sr cr2 dr s)) =
        [cr2 AND NOT (SPI_CR2_TXEIE OR SPI_CR2_RXNEIE)]"
    by (simp add: spi0_interrupt_handler_def cr2_writes_def Let_def)
  have b: "cr2_writes (snd (spi0_interrupt_handler sr cr2 dr s)) = [] \<or>
    cr2_writes (snd (spi0_interrupt_handler sr cr2 dr s)) =
        [cr2 AND NOT (SPI_CR2_TXEIE OR SPI_CR2_RXNEIE)]"
    by (simp add: spi0_interrupt_handler_def cr2_writes_def Let_def)
  have m: "SPI_CR2_TXEIE OR SPI_CR2_RXNEIE = 0xC0" by (simp add: mask_defs)
  have c: "\<forall>n. bit (cr2 AND NOT (SPI_CR2_TXEIE OR SPI_CR2_RXNEIE)) n = (bit cr2 n \<and> n \<noteq> 6 \<and> n \<noteq> 7)"
    unfolding m and_not_bit bit_C0 by auto
  have "(cr2 AND NOT (SPI_CR2_TXEIE OR SPI_CR2_RXNEIE)) AND SPI_CR2_ERRIE =
        cr2 AND (NOT (SPI_CR2_TXEIE OR SPI_CR2_RXNEIE) AND SPI_CR2_ERRIE)"
    by (simp only: and.assoc)
  also have "NOT (SPI_CR2_TXEIE OR SPI_CR2_RXNEIE) AND SPI_CR2_ERRIE = SPI_CR2_ERRIE"
    by (simp add: mask_defs)
  finally have d: "(cr2 AND NOT (SPI_CR2_TXEIE OR SPI_CR2_RXNEIE)) AND SPI_CR2_ERRIE = cr2 AND SPI_CR2_ERRIE" .
  obtain mid out where
    "trace (snd (snd (g233_spi_transfer_interrupt tx rx len w))) =
       trace w @ [Log (INF_starting len), Wr CR2 (SPI_CR2_TXEIE OR SPI_CR2_RXNEIE OR SPI_CR2_ERRIE)]
         @ mid @ [Wr CR2 0, Log out]"
    using transfer_trace by blast
  then have e: "last (cr2_writes (trace (snd (snd (g233_spi_transfer_interrupt tx rx len w))))) = 0"
    by (simp add: cr2_writes_append) (simp add: cr2_writes_def)
  from a b c d e show ?thesis by blast
qed

theorem handler_completion_cr2_frame_witness:
  "transfer_complete ctx2_done = 0 \<and>
   transfer_complete (fst (spi0_interrupt_handler 0x02 0xE0 0 ctx2_done)) \<noteq> 0 \<and>
   cr2_writes (snd (spi0_interrupt_handler 0x02 0xE0 0 ctx2_done)) = [0x20]"
  using handler_completion_cr2_frame [of ctx2_done "0x02" "0xE0" 0]
  by (simp add: mask_defs ctx2_def ctx2_done_def spi_state_init_def spi0_interrupt_handler_def)




text \<open>
  C2, as claimed: once \<^verbatim>\<open>transfer_complete\<close> or \<^verbatim>\<open>error_occurred\<close> is set, no
  invocation of the handler moves a cursor. The handler never reads
  \<^verbatim>\<open>error_occurred\<close>: after an overrun interrupt on a fresh two-byte context, an
  interrupt whose snapshot shows receive-not-empty and transmit-empty without an error
  moves both cursors.
\<close>

theorem cursor_moves_after_error:
  "error_occurred ctx2_errored \<noteq> 0 \<and>
   rx_index (fst (spi0_interrupt_handler 0x03 0xE0 0xAB ctx2_errored)) \<noteq> rx_index ctx2_errored \<and>
   tx_index (fst (spi0_interrupt_handler 0x03 0xE0 0xAB ctx2_errored)) \<noteq> tx_index ctx2_errored"
  by (simp add: ctx2_errored_def ctx2_def spi_state_init_def spi0_interrupt_handler_def mask_defs)

text \<open>
  C2, amended: in every state that handler invocations reach from a freshly initialised
  context, once \<^verbatim>\<open>transfer_complete\<close> is set no invocation, whatever its snapshot,
  moves \<^verbatim>\<open>tx_index\<close> or \<^verbatim>\<open>rx_index\<close>. Once \<^verbatim>\<open>error_occurred\<close> is set,
  the cursors stay on every invocation whose snapshot takes the error path again (ERRIE
  with overrun or underrun).
\<close>

theorem cursors_fixed_after_completion:
  "(s = fst (run_irqs b (spi_state_init tx rx len, tr)) \<and> transfer_complete s \<noteq> 0 \<longrightarrow>
      tx_index (fst (spi0_interrupt_handler sr cr2 dr s)) = tx_index s \<and>
      rx_index (fst (spi0_interrupt_handler sr cr2 dr s)) = rx_index s) \<and>
   (error_occurred s' \<noteq> 0 \<and> cr2' AND SPI_CR2_ERRIE \<noteq> 0 \<and> sr' AND (SPI_SR_UDR OR SPI_SR_OVR) \<noteq> 0 \<longrightarrow>
      tx_index (fst (spi0_interrupt_handler sr' cr2' dr' s')) = tx_index s' \<and>
      rx_index (fst (spi0_interrupt_handler sr' cr2' dr' s')) = rx_index s')"
proof -
  have a: "tx_index (fst (spi0_interrupt_handler sr cr2 dr s)) = tx_index s \<and>
      rx_index (fst (spi0_interrupt_handler sr cr2 dr s)) = rx_index s"
    if "s = fst (run_irqs b (spi_state_init tx rx len, tr))" and "transfer_complete s \<noteq> 0"
    using that handler_cursors_when_complete [of s sr cr2 dr] run_irqs_complete_sound [of b tx rx len tr]
    by simp
  have b: "tx_index (fst (spi0_interrupt_handler sr' cr2' dr' s')) = tx_index s' \<and>
      rx_index (fst (spi0_interrupt_handler sr' cr2' dr' s')) = rx_index s'"
    if "cr2' AND SPI_CR2_ERRIE \<noteq> 0 \<and> sr' AND (SPI_SR_UDR OR SPI_SR_OVR) \<noteq> 0"
    using that by (simp add: spi0_interrupt_handler_def)
  from a b show ?thesis by blast
qed

theorem cursors_fixed_after_completion_witness:
  "ctx1_complete = fst (run_irqs [(0x02, 0xE0, 0), (0x03, 0xE0, 0x11)]
                          (spi_state_init (array_of [0x06]) (array_of [0]) 1, [])) \<and>
   transfer_complete ctx1_complete \<noteq> 0 \<and>
   tx_index (fst (spi0_interrupt_handler 0x03 0xE0 0x22 ctx1_complete)) = tx_index ctx1_complete \<and>
   rx_index (fst (spi0_interrupt_handler 0x03 0xE0 0x22 ctx1_complete)) = rx_index ctx1_complete \<and>
   error_occurred ctx2_errored \<noteq> 0 \<and> (0xE0 :: u32) AND SPI_CR2_ERRIE \<noteq> 0 \<and>
   (0x41 :: u32) AND (SPI_SR_UDR OR SPI_SR_OVR) \<noteq> 0 \<and>
   rx_index (fst (spi0_interrupt_handler 0x41 0xE0 0x22 ctx2_errored)) = rx_index ctx2_errored"
proof -
  have c: "transfer_complete ctx1_complete \<noteq> 0" by code_simp
  have e: "error_occurred ctx2_errored \<noteq> 0" by code_simp
  have m: "(0xE0 :: u32) AND SPI_CR2_ERRIE \<noteq> 0" "(0x41 :: u32) AND (SPI_SR_UDR OR SPI_SR_OVR) \<noteq> 0"
    by (simp_all add: mask_defs)
  note inst = cursors_fixed_after_completion [of ctx1_complete "[(0x02, 0xE0, 0), (0x03, 0xE0, 0x11)]"
      "array_of [0x06]" "array_of [0]" 1 "[]" "0x03" "0xE0" "0x22" ctx2_errored "0xE0" "0x41" "0x22"]
  from inst c e m show ?thesis by (simp add: ctx1_complete_def)
qed

text \<open>
  C4, at the input where the code departs from it: the claim has the transfer return
  \<open>-2\<close> only when the wait ran out without completion, and 0 when there was neither an
  error nor such a timeout. When the interrupts that complete a one-byte transfer arrive
  during the last pass of the wait loop, the loop is left because
  \<^verbatim>\<open>transfer_complete\<close> is set, with \<^verbatim>\<open>timeout_count\<close> equal to
  \<^verbatim>\<open>max_timeout\<close>, and the function returns \<open>-2\<close> for a transfer that is complete,
  free of errors, and has received its byte.
\<close>

theorem late_completion_reported_as_timeout:
  "fst (g233_spi_transfer_interrupt (array_of [0x06]) (array_of [0]) 1 (world_of [sched_late])) = - 2 \<and>
   transfer_complete (spi_state (snd (snd (g233_spi_transfer_interrupt (array_of [0x06]) (array_of [0]) 1
      (world_of [sched_late]))))) = 1 \<and>
   error_occurred (spi_state (snd (snd (g233_spi_transfer_interrupt (array_of [0x06]) (array_of [0]) 1
      (world_of [sched_late]))))) = 0 \<and>
   tx_index (spi_state (snd (snd (g233_spi_transfer_interrupt (array_of [0x06]) (array_of [0]) 1
      (world_of [sched_late]))))) = 1 \<and>
   rx_index (spi_state (snd (snd (g233_spi_transfer_interrupt (array_of [0x06]) (array_of [0]) 1
      (world_of [sched_late]))))) = 1 \<and>
   rx_buffer (spi_state (snd (snd (g233_spi_transfer_interrupt (array_of [0x06]) (array_of [0]) 1
      (world_of [sched_late]))))) 0 = 0x5A"
proof -
  let ?c0 = "(spi_state_init (array_of [0x06]) (array_of [0]) 1,
              trace (world_of [sched_late]) @
                [Log (INF_starting 1), Wr CR2 (SPI_CR2_TXEIE OR SPI_CR2_RXNEIE OR SPI_CR2_ERRIE)])"
  have w: "wait_loop sched_late 0 ?c0 = wait_loop sched_late 100000 ?c0"
    by (rule late_wait) (simp_all add: spi_state_init_def)
  have k: "snd (wait_loop sched_late 100000 ?c0) = 100000" by code_simp
  have s: "transfer_complete (fst (fst (wait_loop sched_late 100000 ?c0))) = 1"
    "error_occurred (fst (fst (wait_loop sched_late 100000 ?c0))) = 0"
    "tx_index (fst (fst (wait_loop sched_late 100000 ?c0))) = 1"
    "rx_index (fst (fst (wait_loop sched_late 100000 ?c0))) = 1"
    "rx_buffer (fst (fst (wait_loop sched_late 100000 ?c0))) 0 = 0x5A"
    by code_simp+
  have sch: "(case irqs (world_of [sched_late]) of [] \<Rightarrow> quiet | s # _ \<Rightarrow> s) = sched_late"
    by (simp add: world_of_def)
  have ex: "at_exit sched_late = []" by (simp add: sched_late_def irq_burst_at_def)
  obtain c1 where c1: "wait_loop sched_late 0 ?c0 = (c1, 100000)"
    using w k by (metis prod.collapse)
  have c1': "c1 = fst (wait_loop sched_late 100000 ?c0)" using c1 w by simp
  have u: "g233_spi_transfer_interrupt (array_of [0x06]) (array_of [0]) 1 (world_of [sched_late]) = 
          (if error_occurred (fst c1) \<noteq> 0 then - 1 else if max_timeout \<le> 100000 then - 2 else 0,
           rx_buffer (fst c1),
           (world_of [sched_late])\<lparr>spi_state := fst c1, irqs := tl (irqs (world_of [sched_late])),
             trace := snd c1 @ [Wr CR2 0,
               Log (if error_occurred (fst c1) \<noteq> 0 then ERR_transfer_failed
                    else if max_timeout \<le> 100000 then WRN_transfer_timeout max_timeout
                    else INF_transfer_completed (interrupt_count (fst c1)))]\<rparr>)"
    by (rule transfer_unfold) (simp_all add: sch c1 ex)
  show ?thesis using s by (simp add: u c1' max_timeout_def)
qed

text \<open>
  C3, as claimed: when the command transfer inside \<^verbatim>\<open>flash_sector_erase\<close> reports an
  error, the operation stops there and does not go on to the busy wait. With an overrun
  interrupt during the four-byte erase command the transfer returns \<open>-1\<close> and logs the
  failure; chip select is then released and asserted again, and the busy wait reads the
  status register in a two-byte transfer before the erase is reported complete.
\<close>

theorem erase_continues_after_failed_transfer:
  "trace (flash_sector_erase 0x001000 (world_of [sched_byte, sched_overrun, sched_status])) =
     [Log (INF_erasing 0x001000),
      Wr CSCTRL 0x11, Log (INF_starting 1), Wr CR2 0xE0,
      Rd SR, Rd CR2, Wr DR 0x06, Rd SR, Rd CR2, Rd DR, Wr CR2 0x20,
      Wr CR2 0, Log (INF_transfer_completed 2), Wr CSCTRL 0,
      Wr CSCTRL 0x11, Log (INF_starting 4), Wr CR2 0xE0,
      Rd SR, Rd CR2, Log (ERR_irq 1 False True),
      Wr CR2 0, Log ERR_transfer_failed, Wr CSCTRL 0,
      Wr CSCTRL 0x11, Log (INF_starting 2), Wr CR2 0xE0,
      Rd SR, Rd CR2, Wr DR 0x05, Rd SR, Rd CR2, Rd DR, Wr DR 0x00, Rd SR, Rd CR2, Rd DR, Wr CR2 0x20,
      Wr CR2 0, Log (INF_transfer_completed 3), Wr CSCTRL 0,
      Log INF_erase_completed]"
  by code_simp

text \<open>
  C3, amended: \<^verbatim>\<open>flash_sector_erase\<close> and \<^verbatim>\<open>flash_page_program\<close> do not look at
  what their command transfer returns. In every call the line that ends the command
  transfer (the second transfer of the call, of 4 or \<open>4 + len\<close> bytes), be it failure,
  timeout or success, is followed by the release of chip select and by the first status
  read of the busy wait, and the call ends with its completion message.
\<close>

theorem erase_and_program_ignore_transfer_result:
  "(\<exists>pre out rest.
      trace (flash_sector_erase addr w) =
        pre @ [Wr CR2 0, Log out, Wr CSCTRL 0, Wr CSCTRL 0x11, Log (INF_starting 2), Wr CR2 0xE0]
          @ rest @ [Log INF_erase_completed] \<and>
      starts pre = starts (trace w) @ [1, 4] \<and>
      (out = ERR_transfer_failed \<or> out = WRN_transfer_timeout max_timeout \<or>
       (\<exists>n. out = INF_transfer_completed n))) \<and>
   (\<exists>pre out rest.
      trace (flash_page_program addr data len w) =
        pre @ [Wr CR2 0, Log out, Wr CSCTRL 0, Wr CSCTRL 0x11, Log (INF_starting 2), Wr CR2 0xE0]
          @ rest @ [Log INF_program_completed] \<and>
      starts pre = starts (trace w) @ [1, 4 + len] \<and>
      (out = ERR_transfer_failed \<or> out = WRN_transfer_timeout max_timeout \<or>
       (\<exists>n. out = INF_transfer_completed n)))"
proof
  let ?w2 = "g233_spi_cs_assert_cs0 (flash_write_enable (emit [Log (INF_erasing addr)] w))"
  have "starts (trace ?w2) = starts (trace w) @ [1]"
    by (simp add: starts_append write_enable_starts) (simp add: starts_def)
  from command_then_wait_busy [OF this, of "\<lambda>w. w" INF_erase_completed
      "array_of (W25X16_SECTOR_ERASE # addr_bytes addr)" "array_of [0, 0, 0, 0]" 4]
  show "\<exists>pre out rest.
      trace (flash_sector_erase addr w) =
        pre @ [Wr CR2 0, Log out, Wr CSCTRL 0, Wr CSCTRL 0x11, Log (INF_starting 2), Wr CR2 0xE0]
          @ rest @ [Log INF_erase_completed] \<and>
      starts pre = starts (trace w) @ [1, 4] \<and>
      (out = ERR_transfer_failed \<or> out = WRN_transfer_timeout max_timeout \<or>
       (\<exists>n. out = INF_transfer_completed n))"
    by (simp add: flash_sector_erase_def Let_def case_prod_beta)
next
  let ?w0 = "emit [Log (INF_programming addr len)] w"
  let ?tx = "copy_payload data len 0
               ((page_tx_data ?w0)(0 := W25X16_PAGE_PROGRAM, 1 := addr_bytes addr ! 0,
                                   2 := addr_bytes addr ! 1, 3 := addr_bytes addr ! 2))"
  let ?w2 = "g233_spi_cs_assert_cs0 (flash_write_enable (?w0\<lparr>page_tx_data := ?tx\<rparr>))"
  let ?T = "g233_spi_transfer_interrupt ?tx (page_rx_data ?w2) (4 + len) ?w2"
  have "starts (trace ?w2) = starts (trace w) @ [1]"
    by (simp add: starts_append write_enable_starts) (simp add: starts_def)
  from command_then_wait_busy [OF this, of "\<lambda>w. w\<lparr>page_rx_data := fst (snd ?T)\<rparr>"
      INF_program_completed ?tx "page_rx_data ?w2" "4 + len"]
  show "\<exists>pre out rest.
      trace (flash_page_program addr data len w) =
        pre @ [Wr CR2 0, Log out, Wr CSCTRL 0, Wr CSCTRL 0x11, Log (INF_starting 2), Wr CR2 0xE0]
          @ rest @ [Log INF_program_completed] \<and>
      starts pre = starts (trace w) @ [1, 4 + len] \<and>
      (out = ERR_transfer_failed \<or> out = WRN_transfer_timeout max_timeout \<or>
       (\<exists>n. out = INF_transfer_completed n))"
    by (simp add: flash_page_program_def Let_def case_prod_beta)
qed


text \<open>
  C9. \<^verbatim>\<open>flash_read_status\<close> returns \<open>0xFF\<close>, whose busy bit is set, whenever its
  transfer returns a non-zero result (\<open>-1\<close> for a hardware error, \<open>-2\<close> for a timeout),
  and the second received byte only when the transfer returns 0.
\<close>

theorem read_status_default:
  assumes "g233_spi_transfer_interrupt (array_of [W25X16_READ_STATUS, 0x00]) (array_of [0, 0]) 2
             (g233_spi_cs_assert_cs0 w) = (r, rxd, w2)"
  shows "(r \<noteq> 0 \<longrightarrow> fst (flash_read_status w) = 0xFF) \<and>
         (r = 0 \<longrightarrow> fst (flash_read_status w) = rxd 1) \<and>
         (0xFF :: u8) AND 0x01 \<noteq> 0 \<and>
         (r = 0 \<or> r = - 1 \<or> r = - 2)"
  using assms transfer_result(1) [OF assms]
  by (simp add: flash_read_status_def Let_def)

theorem read_status_default_witness:
  "fst (g233_spi_transfer_interrupt (array_of [W25X16_READ_STATUS, 0x00]) (array_of [0, 0]) 2
          (g233_spi_cs_assert_cs0 (world_of [sched_overrun]))) = - 1 \<and>
   fst (flash_read_status (world_of [sched_overrun])) = 0xFF \<and>
   fst (g233_spi_transfer_interrupt (array_of [W25X16_READ_STATUS, 0x00]) (array_of [0, 0]) 2
          (g233_spi_cs_assert_cs0 (world_of [sched_status]))) = 0 \<and>
   fst (flash_read_status (world_of [sched_status])) =
     fst (snd (g233_spi_transfer_interrupt (array_of [W25X16_READ_STATUS, 0x00]) (array_of [0, 0]) 2
          (g233_spi_cs_assert_cs0 (world_of [sched_status])))) 1"
proof -
  let ?E = "g233_spi_transfer_interrupt (array_of [W25X16_READ_STATUS, 0x00]) (array_of [0, 0]) 2
              (g233_spi_cs_assert_cs0 (world_of [sched_overrun]))"
  let ?S = "g233_spi_transfer_interrupt (array_of [W25X16_READ_STATUS, 0x00]) (array_of [0, 0]) 2
              (g233_spi_cs_assert_cs0 (world_of [sched_status]))"
  have fe: "fst ?E = - 1" by code_simp
  have fs: "fst ?S = 0" by code_simp
  have "?E = (fst ?E, fst (snd ?E), snd (snd ?E))" by simp
  then have e: "?E = (- 1, fst (snd ?E), snd (snd ?E))" by (simp only: fe)
  have "?S = (fst ?S, fst (snd ?S), snd (snd ?S))" by simp
  then have s: "?S = (0, fst (snd ?S), snd (snd ?S))" by (simp only: fs)
  from read_status_default [OF e] read_status_default [OF s] fe fs
  show ?thesis by simp
qed


text \<open>
  C7, as claimed: the ID read is one transaction of exactly four bytes, \<open>0x9F\<close> and
  three dummy bytes, and its result is \<open>(byte1 << 16) | (byte2 << 8) | byte3\<close> of the
  received bytes, \<open>0xEF3015\<close> for a reply with \<open>0xEF, 0x30, 0x15\<close> in positions 1 to 3.
  Three runs say otherwise. With five transmit-empty interrupts before the first byte is
  received, \<^verbatim>\<open>flash_read_jedec_id\<close> succeeds after the handler has written five bytes
  to the data register, the fifth being a dummy of its own. With an overrun interrupt
  after the reply is complete and before the interrupts are disabled, the transfer
  returns \<open>-1\<close> and \<^verbatim>\<open>flash_read_jedec_id\<close> returns 0 although the reply is in the
  buffer. And when the three operand calls of \<^verbatim>\<open>flash_read_id\<close> run from right to
  left, which C allows, the same reply gives \<open>0x1530EF\<close>.
\<close>

theorem read_jedec_id_not_as_claimed:
  "fst (flash_read_jedec_id (world_of [sched_jedec_extra])) = 0xEF3015 \<and>
   dr_writes (trace (snd (flash_read_jedec_id (world_of [sched_jedec_extra])))) = [0x9F, 0, 0, 0, 0] \<and>
   map (rx_buffer (spi_state (snd (flash_read_jedec_id (world_of [sched_jedec_then_error])))))
     [0, 1, 2, 3] = [0xFF, 0xEF, 0x30, 0x15] \<and>
   fst (flash_read_jedec_id (world_of [sched_jedec_then_error])) = 0 \<and>
   map (next_byte pworld_jedec) [0, 1, 2, 3] = [0xFF, 0xEF, 0x30, 0x15] \<and>
   fst (flash_read_id [2, 1, 0] 0 pworld_jedec) = 0x1530EF"
  by code_simp

text \<open>
  C7, amended. \<^verbatim>\<open>flash_read_jedec_id\<close> starts one transfer, of four bytes, from the
  buffer \<open>0x9F, 0, 0, 0\<close>; the bytes written to the data register in the call are the
  first \<open>m\<close> bytes of that buffer followed by zero dummy bytes of the handler, which only
  come once all four are written. When the transfer returns 0, all four bytes are
  written, the result is \<open>(byte1 << 16) | (byte2 << 8) | byte3\<close> of the received bytes
  (byte 0 is not used), and it is \<open>0xEF3015\<close> for \<open>0xEF, 0x30, 0x15\<close>; when the transfer
  returns a failure, the result is 0. \<^verbatim>\<open>flash_read_id\<close> writes \<open>0x9F, 0, 0, 0\<close> to
  the data register, each write followed by one read, whatever the order of evaluation;
  when its three operand calls run in source order, the result is the same combination
  of the second, third and fourth byte read.
\<close>

theorem read_jedec_id_transaction:
  "starts (trace (snd (flash_read_jedec_id w))) = starts (trace w) @ [4] \<and>
   map (tx_buffer (spi_state (snd (flash_read_jedec_id w)))) [0, 1, 2, 3] = [0x9F, 0, 0, 0] \<and>
   total_bytes (spi_state (snd (flash_read_jedec_id w))) = 4 \<and>
   (\<exists>m k. dr_writes (trace (snd (flash_read_jedec_id w))) =
            dr_writes (trace w) @ take m [0x9F, 0, 0, 0] @ replicate k 0 \<and>
          m \<le> 4 \<and> (0 < k \<longrightarrow> m = 4)) \<and>
   (g233_spi_transfer_interrupt (array_of [W25X16_READ_JEDEC_ID, 0x00, 0x00, 0x00])
      (array_of [0, 0, 0, 0]) 4
      (g233_spi_cs_assert_cs0 (emit [Log INF_reading_jedec] w)) = (0, rxd, w2) \<longrightarrow>
      fst (flash_read_jedec_id w) =
        push_bit 16 (ucast (rxd 1)) OR push_bit 8 (ucast (rxd 2)) OR ucast (rxd 3) \<and>
      (rxd 1 = 0xEF \<and> rxd 2 = 0x30 \<and> rxd 3 = 0x15 \<longrightarrow> fst (flash_read_jedec_id w) = 0xEF3015) \<and>
      rxd = rx_buffer (spi_state (snd (flash_read_jedec_id w))) \<and>
      (\<exists>k. dr_writes (trace (snd (flash_read_jedec_id w))) =
            dr_writes (trace w) @ [0x9F, 0, 0, 0] @ replicate k 0)) \<and>
   (g233_spi_transfer_interrupt (array_of [W25X16_READ_JEDEC_ID, 0x00, 0x00, 0x00])
      (array_of [0, 0, 0, 0]) 4
      (g233_spi_cs_assert_cs0 (emit [Log INF_reading_jedec] w)) = (r, rxd', w2') \<and> r \<noteq> 0 \<longrightarrow>
      fst (flash_read_jedec_id w) = 0) \<and>
   dr_accesses (ptrace (snd (flash_read_id order cs pw))) =
     dr_accesses (ptrace pw) @
       [Wr DR 0x9F, Rd DR, Wr DR 0, Rd DR, Wr DR 0, Rd DR, Wr DR 0, Rd DR] \<and>
   (order = [0, 1, 2] \<longrightarrow>
      fst (flash_read_id order cs pw) =
        push_bit 16 (ucast (next_byte pw 1)) OR push_bit 8 (ucast (next_byte pw 2))
          OR ucast (next_byte pw 3) \<and>
      (next_byte pw 1 = 0xEF \<and> next_byte pw 2 = 0x30 \<and> next_byte pw 3 = 0x15 \<longrightarrow>
         fst (flash_read_id order cs pw) = 0xEF3015))"
proof -
  let ?w1 = "g233_spi_cs_assert_cs0 (emit [Log INF_reading_jedec] w)"
  let ?tx = "array_of [W25X16_READ_JEDEC_ID, 0x00, 0x00, 0x00]"
  let ?T = "g233_spi_transfer_interrupt ?tx (array_of [0, 0, 0, 0]) 4 ?w1"
  let ?w2 = "snd (snd ?T)"
  let ?R = "flash_read_jedec_id w"
  have st: "spi_state (snd ?R) = spi_state ?w2"
    by (simp add: flash_read_jedec_id_def Let_def case_prod_beta)
  have dw: "dr_writes (trace (snd ?R)) = dr_writes (trace ?w2)"
    by (simp add: flash_read_jedec_id_def Let_def case_prod_beta dr_writes_append)
       (simp add: dr_writes_def)
  have sw: "starts (trace (snd ?R)) = starts (trace ?w2)"
    by (simp add: flash_read_jedec_id_def Let_def case_prod_beta starts_append)
       (simp add: starts_def)
  have base: "dr_writes (trace ?w1) = dr_writes (trace w)"
    by (simp add: dr_writes_append) (simp add: dr_writes_def)
  have "starts (trace ?w2) = starts (trace ?w1) @ [4]" by (rule transfer_starts)
  then have c1: "starts (trace (snd ?R)) = starts (trace w) @ [4]"
    by (simp add: sw starts_append) (simp add: starts_def)
  have tb: "tx_buffer (spi_state ?w2) = ?tx \<and> total_bytes (spi_state ?w2) = 4"
    by (rule transfer_keeps_request)
  have txs: "map ?tx [0, 1, 2, 3] = [0x9F, 0, 0, 0]"
    by (simp add: array_of_def W25X16_READ_JEDEC_ID_def)
  have c2: "map (tx_buffer (spi_state (snd ?R))) [0, 1, 2, 3] = [0x9F, 0, 0, 0]"
    using tb txs by (simp add: st)
  have c3: "total_bytes (spi_state (snd ?R)) = 4" using tb by (simp add: st)
  obtain k where k: "dr_writes (trace ?w2) =
        dr_writes (trace ?w1) @
        map (\<lambda>i. ucast (?tx (int i))) [0..<nat (tx_index (spi_state ?w2))] @ replicate k 0"
      "0 < k \<longrightarrow> tx_index (spi_state ?w2) = 4"
      "0 \<le> tx_index (spi_state ?w2)" "tx_index (spi_state ?w2) \<le> 4"
    using transfer_dr_writes [of 4 ?tx "array_of [0, 0, 0, 0]" ?w1] by auto
  define m where "m = nat (tx_index (spi_state ?w2))"
  have m4: "m \<le> 4" using k(4) by (simp add: m_def)
  have km: "0 < k \<longrightarrow> m = 4" using k(2) by (simp add: m_def)
  have w: "dr_writes (trace (snd ?R)) = dr_writes (trace w) @ take m [0x9F, 0, 0, 0] @ replicate k 0"
  proof -
    have "dr_writes (trace ?w2) =
        dr_writes (trace w) @ map (\<lambda>i. ucast (?tx (int i))) [0..<m] @ replicate k 0"
      using k(1) by (simp only: base m_def)
    then show ?thesis by (simp only: dw jedec_tx_prefix [OF m4])
  qed
  have c4: "\<exists>m k. dr_writes (trace (snd ?R)) =
            dr_writes (trace w) @ take m [0x9F, 0, 0, 0] @ replicate k 0 \<and>
          m \<le> 4 \<and> (0 < k \<longrightarrow> m = 4)"
    using w m4 km by blast
  have c5: "fst ?R = push_bit 16 (ucast (rxd 1)) OR push_bit 8 (ucast (rxd 2)) OR ucast (rxd 3) \<and>
      (rxd 1 = 0xEF \<and> rxd 2 = 0x30 \<and> rxd 3 = 0x15 \<longrightarrow> fst ?R = 0xEF3015) \<and>
      rxd = rx_buffer (spi_state (snd ?R)) \<and>
      (\<exists>k. dr_writes (trace (snd ?R)) = dr_writes (trace w) @ [0x9F, 0, 0, 0] @ replicate k 0)"
    if t: "?T = (0, rxd, w2)"
  proof -
    have id: "fst ?R = jedec_of (rxd 1) (rxd 2) (rxd 3)"
      using t by (simp add: flash_read_jedec_id_def Let_def)
    have rx: "rxd = rx_buffer (spi_state (snd ?R))"
      using transfer_result(4) [OF t] t by (simp add: st)
    have "tx_index (spi_state w2) = 4" using transfer_success_cursor [OF _ t] by simp
    then have "m = 4" using t by (simp add: m_def)
    with w have "dr_writes (trace (snd ?R)) = dr_writes (trace w) @ [0x9F, 0, 0, 0] @ replicate k 0"
      by simp
    with id rx jedec_EF3015 show ?thesis by (auto simp: jedec_of_def)
  qed
  have c6: "fst ?R = 0" if "?T = (r, rxd', w2')" "r \<noteq> 0"
    using that by (simp add: flash_read_jedec_id_def Let_def)
  have c7: "dr_accesses (ptrace (snd (flash_read_id order cs pw))) =
     dr_accesses (ptrace pw) @
       [Wr DR 0x9F, Rd DR, Wr DR 0, Rd DR, Wr DR 0, Rd DR, Wr DR 0, Rd DR]"
    by (rule flash_read_id_accesses)
  have c8: "fst (flash_read_id order cs pw) =
        push_bit 16 (ucast (next_byte pw 1)) OR push_bit 8 (ucast (next_byte pw 2))
          OR ucast (next_byte pw 3) \<and>
      (next_byte pw 1 = 0xEF \<and> next_byte pw 2 = 0x30 \<and> next_byte pw 3 = 0x15 \<longrightarrow>
         fst (flash_read_id order cs pw) = 0xEF3015)"
    if "order = [0, 1, 2]"
    using that flash_read_id_source_order [of cs pw] by auto
  from c1 c2 c3 c4 c5 c6 c7 c8 show ?thesis by blast
qed

theorem read_jedec_id_transaction_witness:
  "fst (g233_spi_transfer_interrupt (array_of [W25X16_READ_JEDEC_ID, 0x00, 0x00, 0x00])
          (array_of [0, 0, 0, 0]) 4
          (g233_spi_cs_assert_cs0 (emit [Log INF_reading_jedec] (world_of [sched_jedec])))) = 0 \<and>
   map (fst (snd (g233_spi_transfer_interrupt (array_of [W25X16_READ_JEDEC_ID, 0x00, 0x00, 0x00])
          (array_of [0, 0, 0, 0]) 4
          (g233_spi_cs_assert_cs0 (emit [Log INF_reading_jedec] (world_of [sched_jedec])))))) [0, 1, 2, 3]
     = [0xFF, 0xEF, 0x30, 0x15] \<and>
   fst (flash_read_jedec_id (world_of [sched_jedec])) = 0xEF3015 \<and>
   fst (g233_spi_transfer_interrupt (array_of [W25X16_READ_JEDEC_ID, 0x00, 0x00, 0x00])
          (array_of [0, 0, 0, 0]) 4
          (g233_spi_cs_assert_cs0 (emit [Log INF_reading_jedec] (world_of [sched_overrun])))) = - 1 \<and>
   fst (flash_read_jedec_id (world_of [sched_overrun])) = 0 \<and>
   map (next_byte pworld_jedec) [1, 2, 3] = [0xEF, 0x30, 0x15] \<and>
   fst (flash_read_id [0, 1, 2] 0 pworld_jedec) = 0xEF3015"
proof -
  let ?S = "g233_spi_transfer_interrupt (array_of [W25X16_READ_JEDEC_ID, 0x00, 0x00, 0x00])
          (array_of [0, 0, 0, 0]) 4
          (g233_spi_cs_assert_cs0 (emit [Log INF_reading_jedec] (world_of [sched_jedec])))"
  let ?F = "g233_spi_transfer_interrupt (array_of [W25X16_READ_JEDEC_ID, 0x00, 0x00, 0x00])
          (array_of [0, 0, 0, 0]) 4
          (g233_spi_cs_assert_cs0 (emit [Log INF_reading_jedec] (world_of [sched_overrun])))"
  have fs: "fst ?S = 0" by code_simp
  have ff: "fst ?F = - 1" by code_simp
  have b: "map (fst (snd ?S)) [0, 1, 2, 3] = [0xFF, 0xEF, 0x30, 0x15]" by code_simp
  have nb: "map (next_byte pworld_jedec) [1, 2, 3] = [0xEF, 0x30, 0x15]" by code_simp
  have "?S = (fst ?S, fst (snd ?S), snd (snd ?S))" by simp
  then have s: "?S = (0, fst (snd ?S), snd (snd ?S))" by (simp only: fs)
  have "?F = (fst ?F, fst (snd ?F), snd (snd ?F))" by simp
  then have f: "?F = (- 1, fst (snd ?F), snd (snd ?F)) \<and> (- 1 :: int) \<noteq> 0" by (simp only: ff) simp
  have o: "[0, 1, 2] = [0, 1, 2 :: nat]" by simp
  have bs: "fst (snd ?S) 1 = 0xEF \<and> fst (snd ?S) 2 = 0x30 \<and> fst (snd ?S) 3 = 0x15"
    using b by simp
  have ns: "next_byte pworld_jedec 1 = 0xEF \<and> next_byte pworld_jedec 2 = 0x30 \<and>
      next_byte pworld_jedec 3 = 0x15"
    using nb by simp
  note succ = read_jedec_id_transaction [of "world_of [sched_jedec]" "fst (snd ?S)" "snd (snd ?S)"
      "- 1" "fst (snd ?F)" "snd (snd ?F)" "[0, 1, 2]" 0 pworld_jedec]
  note fail = read_jedec_id_transaction [of "world_of [sched_overrun]" "fst (snd ?S)" "snd (snd ?S)"
      "- 1" "fst (snd ?F)" "snd (snd ?F)" "[0, 1, 2]" 0 pworld_jedec]
  from succ s bs have r1: "fst (flash_read_jedec_id (world_of [sched_jedec])) = 0xEF3015" by blast
  from fail f have r2: "fst (flash_read_jedec_id (world_of [sched_overrun])) = 0" by blast
  from succ o ns have r3: "fst (flash_read_id [0, 1, 2] 0 pworld_jedec) = 0xEF3015" by blast
  from fs ff b nb r1 r2 r3 show ?thesis by blast
qed

text \<open>
  C8. For a line \<open>cs\<close> in \<open>{0, 1}\<close> and any register file,
  \<^verbatim>\<open>g233_spi_cs_assert(cs)\<close> leaves in the chip-select control register exactly the
  enable bit and the active bit of that line; \<^verbatim>\<open>g233_spi_cs_deassert()\<close> leaves no
  bit. Asserting a second line right after a first leaves only the second line enabled
  and active.
\<close>

theorem cs_assert_exclusive:
  assumes "cs = FLASH_CS0 \<or> cs = FLASH_CS1"
  shows "(\<forall>n. bit (g233_spi_cs_assert cs rf CSCTRL) n = (n = nat cs \<or> n = 4 + nat cs)) \<and>
         cs_enabled_lines (g233_spi_cs_assert cs rf CSCTRL) = [nat cs] \<and>
         cs_active_lines (g233_spi_cs_assert cs rf CSCTRL) = [nat cs] \<and>
         g233_spi_cs_deassert rf CSCTRL = 0 \<and>
         cs_enabled_lines (g233_spi_cs_deassert rf CSCTRL) = [] \<and>
         cs_active_lines (g233_spi_cs_deassert rf CSCTRL) = [] \<and>
         (cs' = FLASH_CS0 \<or> cs' = FLASH_CS1 \<longrightarrow>
            cs_active_lines (g233_spi_cs_assert cs' (g233_spi_cs_assert cs rf) CSCTRL) = [nat cs'] \<and>
            cs_enabled_lines (g233_spi_cs_assert cs' (g233_spi_cs_assert cs rf) CSCTRL) = [nat cs'])"
proof -
  have b11: "bit (0x11 :: u32) n = (n = 0 \<or> n = 4)" for n
  proof -
    have e: "(0x11 :: u32) = 2 ^ 0 OR 2 ^ 4" by simp
    show ?thesis unfolding e by (simp only: bit_or_iff bit_exp_iff possible_bit_word) auto
  qed
  have b22: "bit (0x22 :: u32) n = (n = 1 \<or> n = 5)" for n
  proof -
    have e: "(0x22 :: u32) = 2 ^ 1 OR 2 ^ 5" by simp
    show ?thesis unfolding e by (simp only: bit_or_iff bit_exp_iff possible_bit_word) auto
  qed
  have v0: "g233_spi_cs_assert 0 rf' CSCTRL = 0x11" for rf'
    by (simp add: g233_spi_cs_assert_def FLASH_CS0_def SPI_CSCTRL_CS0_EN_def SPI_CSCTRL_CS0_ACT_def)
  have v1: "g233_spi_cs_assert 1 rf' CSCTRL = 0x22" for rf'
    by (simp add: g233_spi_cs_assert_def FLASH_CS0_def FLASH_CS1_def
        SPI_CSCTRL_CS1_EN_def SPI_CSCTRL_CS1_ACT_def)
  have l0: "cs_enabled_lines 0x11 = [0]" "cs_active_lines 0x11 = [0]"
    by (simp_all add: cs_enabled_lines_def cs_active_lines_def b11)
  have l1: "cs_enabled_lines 0x22 = [1]" "cs_active_lines 0x22 = [1]"
    by (simp_all add: cs_enabled_lines_def cs_active_lines_def b22)
  have d: "g233_spi_cs_deassert rf CSCTRL = 0" by (simp add: g233_spi_cs_deassert_def)
  have dl: "cs_enabled_lines 0 = []" "cs_active_lines 0 = []"
    by (simp_all add: cs_enabled_lines_def cs_active_lines_def)
  have n0: "\<forall>n. bit (g233_spi_cs_assert 0 rf CSCTRL) n = (n = nat 0 \<or> n = 4 + nat 0)"
    unfolding v0 b11 by simp
  have n1: "\<forall>n. bit (g233_spi_cs_assert 1 rf CSCTRL) n = (n = nat 1 \<or> n = 4 + nat 1)"
    unfolding v1 b22 by simp
  have second: "cs' = 0 \<or> cs' = 1 \<longrightarrow>
      cs_active_lines (g233_spi_cs_assert cs' rf' CSCTRL) = [nat cs'] \<and>
      cs_enabled_lines (g233_spi_cs_assert cs' rf' CSCTRL) = [nat cs']" for rf'
    by (auto simp add: v0 v1 l0 l1)
  from assms consider "cs = 0" | "cs = 1" by (auto simp: FLASH_CS0_def FLASH_CS1_def)
  then show ?thesis
  proof cases
    case 1
    with n0 second [of "g233_spi_cs_assert 0 rf"] show ?thesis
      by (simp add: v0 l0 d dl FLASH_CS0_def FLASH_CS1_def)
  next
    case 2
    with n1 second [of "g233_spi_cs_assert 1 rf"] show ?thesis
      by (simp add: v1 l1 d dl FLASH_CS0_def FLASH_CS1_def)
  qed
qed

theorem cs_assert_exclusive_witness:
  "cs_active_lines (g233_spi_cs_assert FLASH_CS1 (g233_spi_cs_assert FLASH_CS0 (\<lambda>_. 0xFFFFFFFF)) CSCTRL) = [1] \<and>
   cs_enabled_lines (g233_spi_cs_assert FLASH_CS1 (g233_spi_cs_assert FLASH_CS0 (\<lambda>_. 0xFFFFFFFF)) CSCTRL) = [1] \<and>
   cs_active_lines (g233_spi_cs_assert FLASH_CS0 (\<lambda>_. 0xFFFFFFFF) CSCTRL) = [0] \<and>
   g233_spi_cs_deassert (\<lambda>_. 0xFFFFFFFF) CSCTRL = 0"
  using cs_assert_exclusive [of FLASH_CS0 "\<lambda>_. 0xFFFFFFFF" FLASH_CS1]
  by (simp add: FLASH_CS0_def FLASH_CS1_def)

end
